theory Spec2Isabelle
  imports Complex_Main "HOL-Library.AList"
begin

section \<open>Python values and errors\<close>

text \<open>
  The exceptions of \<^verbatim>\<open>finetuning.py\<close> that the modelled code can raise.  Every
  function that can raise returns \<open>py_error + 'a\<close>, with \<open>Inl\<close> for the exception.
\<close>

datatype py_error = IndexError | ZeroDivisionError | TypeError | OSError | RuntimeError

text \<open>
  A Python \<^verbatim>\<open>float\<close> as far as the code looks at it: the code only compares scores.
  Finite floats are ordered like the reals they denote, the infinities are the two ends,
  and every comparison with \<^verbatim>\<open>nan\<close> is false.
\<close>

datatype pyfloat = NaN | NegInf | Fin real | PosInf

fun float_lt :: "pyfloat \<Rightarrow> pyfloat \<Rightarrow> bool" where
  "float_lt NaN _ = False"
| "float_lt _ NaN = False"
| "float_lt NegInf NegInf = False"
| "float_lt NegInf _ = True"
| "float_lt (Fin a) (Fin b) = (a < b)"
| "float_lt (Fin a) PosInf = True"
| "float_lt (Fin a) NegInf = False"
| "float_lt PosInf _ = False"

definition float_gt :: "pyfloat \<Rightarrow> pyfloat \<Rightarrow> bool" where
  "float_gt a b = float_lt b a"

text \<open>\<^verbatim>\<open>os.path.join(a, b)\<close> on POSIX, for two components.\<close>

definition path_join :: "string \<Rightarrow> string \<Rightarrow> string" where
  "path_join a b =
     (if b \<noteq> [] \<and> hd b = CHR ''/'' then b
      else if a = [] \<or> last a = CHR ''/'' then a @ b
      else a @ ''/'' @ b)"

section \<open>EarlyStopping\<close>

text \<open>
  The fields of \<^verbatim>\<open>EarlyStopping\<close>.  The field \<^verbatim>\<open>_model\<close> is only read by
  \<^verbatim>\<open>torch.save\<close>; what a call writes to disk is returned as the list of the paths it
  wrote.
\<close>

record early_stopping =
  patience :: int
  best_score :: "pyfloat option"
  counter :: int
  es_mode :: string
  stop :: bool
  dir_path :: string
  train_loss :: "pyfloat list"
  val_loss :: "pyfloat list"
  val_scores :: "pyfloat list"

definition EarlyStopping_init :: "int \<Rightarrow> string \<Rightarrow> string \<Rightarrow> early_stopping" where
  "EarlyStopping_init p d m =
     \<lparr>patience = p, best_score = None, counter = 0, es_mode = m, stop = False,
      dir_path = d, train_loss = [], val_loss = [], val_scores = []\<rparr>"

text \<open>
  \<^verbatim>\<open>_is_improvement\<close>: comparing a float with \<^verbatim>\<open>None\<close> raises \<^verbatim>\<open>TypeError\<close>.
\<close>

definition is_improvement :: "early_stopping \<Rightarrow> pyfloat \<Rightarrow> py_error + bool" where
  "is_improvement es score =
     (case best_score es of
        None \<Rightarrow> Inl TypeError
      | Some b \<Rightarrow>
          if es_mode es = ''max'' then Inr (float_gt score b)
          else Inr (float_lt score b))"

text \<open>
  \<^verbatim>\<open>_save_checkpoint\<close>.  \<open>torch_save\<close> is \<^verbatim>\<open>torch.save\<close> of the state dict on the
  disk as it is: \<open>None\<close> where the file at the path is written, the exception raised
  otherwise (the directory is missing or cannot be written to: a \<^verbatim>\<open>RuntimeError\<close> of
  torch's file writer, or an \<^verbatim>\<open>OSError\<close>).  Nothing in the source creates the
  directory.  The result is the list of the paths written.
\<close>

definition save_checkpoint ::
  "(string \<Rightarrow> py_error option) \<Rightarrow> early_stopping \<Rightarrow> string \<Rightarrow> py_error + string list" where
  "save_checkpoint torch_save es name =
     (let checkpoint_path = path_join (dir_path es) name
      in case torch_save checkpoint_path of
           Some e \<Rightarrow> Inl e
         | None \<Rightarrow> Inr [checkpoint_path])"

text \<open>
  \<^verbatim>\<open>__call__\<close>: the returned flag, the object after the call, and the files written
  during the call.  An exception of \<^verbatim>\<open>_save_checkpoint\<close> leaves the call before the
  best score and the counter are assigned.
\<close>

definition EarlyStopping_call ::
  "(string \<Rightarrow> py_error option) \<Rightarrow> early_stopping \<Rightarrow> pyfloat \<Rightarrow> pyfloat \<Rightarrow> pyfloat \<Rightarrow>
   py_error + (bool \<times> early_stopping \<times> string list)" where
  "EarlyStopping_call torch_save es0 trl vl val_score =
     (let es = es0\<lparr>train_loss := train_loss es0 @ [trl],
                   val_loss := val_loss es0 @ [vl],
                   val_scores := val_scores es0 @ [val_score]\<rparr>;
          score = val_score
      in if best_score es = None then
           (let es1 = es\<lparr>best_score := Some score\<rparr> in Inr (stop es1, es1, []))
         else
           (case is_improvement es score of
              Inl e \<Rightarrow> Inl e
            | Inr True \<Rightarrow>
                (case save_checkpoint torch_save es ''checkpoint.pt'' of
                   Inl e \<Rightarrow> Inl e
                 | Inr w \<Rightarrow>
                     (let es1 = es\<lparr>best_score := Some score, counter := 0\<rparr>
                      in Inr (stop es1, es1, w)))
            | Inr False \<Rightarrow>
                (let es1 = es\<lparr>counter := counter es + 1\<rparr>;
                     es2 = (if counter es1 \<ge> patience es1 then es1\<lparr>stop := True\<rparr> else es1)
                 in Inr (stop es2, es2, []))))"

text \<open>
  A sequence of calls on the same object, as \<^verbatim>\<open>fit\<close> makes them, one per epoch:
  the flags returned, the object after the last call and the files written, in order.
  An exception ends the sequence.
\<close>

fun EarlyStopping_calls ::
  "(string \<Rightarrow> py_error option) \<Rightarrow> early_stopping \<Rightarrow> (pyfloat \<times> pyfloat \<times> pyfloat) list \<Rightarrow>
   py_error + (bool list \<times> early_stopping \<times> string list)" where
  "EarlyStopping_calls torch_save es [] = Inr ([], es, [])"
| "EarlyStopping_calls torch_save es ((trl, vl, vs) # rest) =
     (case EarlyStopping_call torch_save es trl vl vs of
        Inl e \<Rightarrow> Inl e
      | Inr (r, es1, w) \<Rightarrow>
          (case EarlyStopping_calls torch_save es1 rest of
             Inl e \<Rightarrow> Inl e
           | Inr (rs, es2, ws) \<Rightarrow> Inr (r # rs, es2, w @ ws)))"

section \<open>CLIPFinetuner: freezing and the unfreezing schedule\<close>

text \<open>
  The model \<^verbatim>\<open>clip.load\<close> returns, as far as the fine-tuner touches it: the
  \<^verbatim>\<open>requires_grad\<close> flag of every parameter.  \<^verbatim>\<open>visual.proj\<close> and
  \<^verbatim>\<open>text_projection\<close> are single parameters; each tower is a sequence of residual
  blocks, each block a list of parameters; \<open>other_parameters\<close> are all the remaining
  parameters of \<^verbatim>\<open>model.parameters()\<close> (embeddings, layer norms, the logit scale).
\<close>

record clip_model =
  visual_proj :: bool
  text_projection :: bool
  visual_transformer_resblocks :: "bool list list"
  transformer_resblocks :: "bool list list"
  other_parameters :: "bool list"

text \<open>
  The fields of \<^verbatim>\<open>CLIPFinetuner\<close> that the schedule and the epoch loop read or
  write.  The data loaders and the optimizer are modelled with the code that uses them.
\<close>

record clip_finetuner =
  model :: clip_model
  tot_blocks :: nat
  unfreeze_from :: int
  unfreeze_every :: int
  early_stopping :: early_stopping

text \<open>\<^verbatim>\<open>_freeze_model\<close>: \<^verbatim>\<open>requires_grad_(False)\<close> on every parameter.\<close>

definition freeze_model :: "clip_finetuner \<Rightarrow> clip_finetuner" where
  "freeze_model self =
     self\<lparr>model :=
       \<lparr>visual_proj = False,
        text_projection = False,
        visual_transformer_resblocks =
          map (map (\<lambda>p. False)) (visual_transformer_resblocks (model self)),
        transformer_resblocks = map (map (\<lambda>p. False)) (transformer_resblocks (model self)),
        other_parameters = map (\<lambda>p. False) (other_parameters (model self))\<rparr>\<rparr>"

text \<open>
  One of the two loops of \<^verbatim>\<open>_unfreeze_blocks\<close>:
  \<^verbatim>\<open>for i in range(...): for p in resblocks[i].parameters(): p.requires_grad_()\<close>.
  The indices are never negative; \<^verbatim>\<open>resblocks[i]\<close> beyond the end of the
  \<^verbatim>\<open>nn.Sequential\<close> raises \<^verbatim>\<open>IndexError\<close>.
\<close>

fun unfreeze_range :: "bool list list \<Rightarrow> nat list \<Rightarrow> py_error + bool list list" where
  "unfreeze_range resblocks [] = Inr resblocks"
| "unfreeze_range resblocks (i # rest) =
     (if i < length resblocks
      then unfreeze_range (resblocks[i := map (\<lambda>p. True) (resblocks ! i)]) rest
      else Inl IndexError)"

text \<open>
  \<^verbatim>\<open>_unfreeze_blocks\<close>.  \<^verbatim>\<open>range(tot - b, tot)\<close> is empty when \<open>b \<le> 0\<close>, and
  \<open>b \<le> tot\<close> after the clamp, so its first index is never negative.
\<close>

definition unfreeze_blocks :: "clip_finetuner \<Rightarrow> int \<Rightarrow> py_error + clip_finetuner" where
  "unfreeze_blocks self blocks_to_unfreeze0 =
     (let m = (model self)\<lparr>visual_proj := True, text_projection := True\<rparr>;
          blocks_to_unfreeze =
            (if blocks_to_unfreeze0 > int (tot_blocks self) then int (tot_blocks self)
             else blocks_to_unfreeze0);
          idx = [nat (int (tot_blocks self) - blocks_to_unfreeze) ..< tot_blocks self]
      in case unfreeze_range (visual_transformer_resblocks m) idx of
           Inl e \<Rightarrow> Inl e
         | Inr vis \<Rightarrow>
             (case unfreeze_range (transformer_resblocks m) idx of
                Inl e \<Rightarrow> Inl e
              | Inr txt \<Rightarrow>
                  Inr (self\<lparr>model := m\<lparr>visual_transformer_resblocks := vis,
                                        transformer_resblocks := txt\<rparr>\<rparr>)))"

text \<open>
  \<^verbatim>\<open>_partial_unfreeze\<close>.  Python's \<^verbatim>\<open>%\<close> and \<^verbatim>\<open>//\<close> on integers round
  towards minus infinity, as \<open>mod\<close> and \<open>div\<close> on \<open>int\<close> do; a zero divisor raises
  \<^verbatim>\<open>ZeroDivisionError\<close>, and \<^verbatim>\<open>and\<close> evaluates its right operand only when the
  left one holds.  The \<^verbatim>\<open>print\<close> is left out.
\<close>

definition partial_unfreeze :: "clip_finetuner \<Rightarrow> int \<Rightarrow> py_error + clip_finetuner" where
  "partial_unfreeze self epoch0 =
     (let epoch = epoch0 + 1 in
      if epoch \<ge> unfreeze_from self then
        (if unfreeze_every self = 0 then Inl ZeroDivisionError
         else if epoch mod unfreeze_every self = 0 then
           (let blocks_to_unfreeze =
                  (epoch - unfreeze_from self + unfreeze_every self) div unfreeze_every self + 1
            in if blocks_to_unfreeze \<le> int (tot_blocks self)
               then unfreeze_blocks self blocks_to_unfreeze
               else Inr self)
         else Inr self)
      else Inr self)"

text \<open>
  \<^verbatim>\<open>__init__\<close>, from the loaded model and the two schedule arguments:
  \<^verbatim>\<open>EarlyStopping(self._model)\<close> takes the defaults of its other arguments.
\<close>

definition CLIPFinetuner_init :: "clip_model \<Rightarrow> int \<Rightarrow> int \<Rightarrow> py_error + clip_finetuner" where
  "CLIPFinetuner_init loaded uf ue =
     (let self = \<lparr>model = loaded,
                  tot_blocks = length (visual_transformer_resblocks loaded),
                  unfreeze_from = uf,
                  unfreeze_every = ue,
                  early_stopping = EarlyStopping_init 50 ''models'' ''max''\<rparr>
      in unfreeze_blocks (freeze_model self) 1)"

text \<open>
  \<^verbatim>\<open>fit\<close>.  What \<^verbatim>\<open>_train\<close> and \<^verbatim>\<open>_validate\<close> return in each epoch (or the
  exception they raise) is the parameter \<open>results\<close>, indexed by the epoch; neither
  touches a \<^verbatim>\<open>requires_grad\<close> flag.  \<open>torch_save\<close> is as in
  \<^verbatim>\<open>_save_checkpoint\<close>.  The result is the fine-tuner after the loop and the
  checkpoint files written.
\<close>

fun fit_loop ::
  "(string \<Rightarrow> py_error option) \<Rightarrow> clip_finetuner \<Rightarrow> int list \<Rightarrow>
   (int \<Rightarrow> py_error + (pyfloat \<times> pyfloat \<times> pyfloat)) \<Rightarrow>
   py_error + (clip_finetuner \<times> string list)" where
  "fit_loop torch_save self [] results = Inr (self, [])"
| "fit_loop torch_save self (epoch # rest) results =
     (case partial_unfreeze self epoch of
        Inl e \<Rightarrow> Inl e
      | Inr self1 \<Rightarrow>
          (case results epoch of
             Inl e \<Rightarrow> Inl e
           | Inr (trl, vl, val_score) \<Rightarrow>
               (case EarlyStopping_call torch_save (early_stopping self1) trl vl val_score of
                  Inl e \<Rightarrow> Inl e
                | Inr (stop_now, es, w) \<Rightarrow>
                    if stop_now then Inr (self1\<lparr>early_stopping := es\<rparr>, w)
                    else
                      (case fit_loop torch_save (self1\<lparr>early_stopping := es\<rparr>) rest results of
                         Inl e \<Rightarrow> Inl e
                       | Inr (self2, ws) \<Rightarrow> Inr (self2, w @ ws)))))"

definition fit ::
  "(string \<Rightarrow> py_error option) \<Rightarrow> clip_finetuner \<Rightarrow> int \<Rightarrow>
   (int \<Rightarrow> py_error + (pyfloat \<times> pyfloat \<times> pyfloat)) \<Rightarrow>
   py_error + (clip_finetuner \<times> string list)" where
  "fit torch_save self epochs results =
     fit_loop torch_save self (map int [0..<nat epochs]) results"

section \<open>ImageCaptionDataset and the data loaders\<close>

text \<open>
  The fields of \<^verbatim>\<open>ImageCaptionDataset\<close>.  The two augmenters are objects of the
  module \<^verbatim>\<open>preprocessing\<close>, which the repository keeps outside this file: they are
  taken as they come, as functions on images of any type \<open>'img\<close> and on captions.
\<close>

record 'img image_caption_dataset =
  mode :: string
  images_dir :: string
  captions_file :: string
  image_augmenter :: "'img \<Rightarrow> 'img"
  text_augmenter :: "string \<Rightarrow> string"
  image_caption_pairs :: "(string \<times> string) list"

text \<open>
  \<^verbatim>\<open>__init__\<close>.  Reading the captions file and splitting its lines is left outside:
  \<open>pairs\<close> is the list the comprehension builds (a line without a tab raises
  \<^verbatim>\<open>IndexError\<close> there, and no object exists).
\<close>

definition ImageCaptionDataset_init ::
  "('img \<Rightarrow> 'img) \<Rightarrow> (string \<Rightarrow> string) \<Rightarrow> string \<Rightarrow> string \<Rightarrow> (string \<times> string) list \<Rightarrow>
   'img image_caption_dataset" where
  "ImageCaptionDataset_init img_aug txt_aug dir file pairs =
     \<lparr>mode = ''train'',
      images_dir = path_join ''data'' dir,
      captions_file = path_join ''data'' file,
      image_augmenter = img_aug,
      text_augmenter = txt_aug,
      image_caption_pairs = pairs\<rparr>"

definition ImageCaptionDataset_len :: "'img image_caption_dataset \<Rightarrow> int" where
  "ImageCaptionDataset_len self = int (length (image_caption_pairs self))"

text \<open>
  \<^verbatim>\<open>xs[idx]\<close> on a Python list: a negative index counts from the end, an index out of
  range raises \<^verbatim>\<open>IndexError\<close>.
\<close>

definition list_getitem :: "'a list \<Rightarrow> int \<Rightarrow> py_error + 'a" where
  "list_getitem xs idx =
     (let n = int (length xs);
          j = (if idx < 0 then n + idx else idx)
      in if 0 \<le> j \<and> j < n then Inr (xs ! nat j) else Inl IndexError)"

text \<open>
  \<^verbatim>\<open>__getitem__\<close>.  \<open>image_open\<close> is \<^verbatim>\<open>Image.open\<close> on the disk as it is: the
  decoded image at a path, or nothing where opening raises (\<^verbatim>\<open>FileNotFoundError\<close>
  and PIL's \<^verbatim>\<open>UnidentifiedImageError\<close> are both \<^verbatim>\<open>OSError\<close>s); \<open>convert_rgb\<close> is
  \<^verbatim>\<open>.convert("RGB")\<close>.
\<close>

definition ImageCaptionDataset_getitem ::
  "(string \<rightharpoonup> 'img) \<Rightarrow> ('img \<Rightarrow> 'img) \<Rightarrow> 'img image_caption_dataset \<Rightarrow> int \<Rightarrow>
   py_error + ('img \<times> string)" where
  "ImageCaptionDataset_getitem image_open convert_rgb self idx =
     (case list_getitem (image_caption_pairs self) idx of
        Inl e \<Rightarrow> Inl e
      | Inr (image_path0, text) \<Rightarrow>
          (let image_path = path_join (images_dir self) image_path0
           in case image_open image_path of
                None \<Rightarrow> Inl OSError
              | Some opened \<Rightarrow>
                  (let image = convert_rgb opened
                   in if mode self = ''train''
                      then Inr (image_augmenter self image, text_augmenter self text)
                      else Inr (image, text))))"

text \<open>
  \<^verbatim>\<open>torch.utils.data.Subset\<close>, the class of the two objects \<^verbatim>\<open>random_split\<close>
  returns: a reference to the dataset it was made from, the indices it selects, and, as
  for every Python object without \<^verbatim>\<open>__slots__\<close>, the attributes assigned to it from
  outside.  Both subsets refer to the one object \<^verbatim>\<open>self._dataset\<close>, so the objects
  that \<^verbatim>\<open>_get_data_loaders\<close> leaves behind are the record \<open>data_loaders\<close>, with that
  object in it once.
\<close>

record subset =
  indices :: "nat list"
  attributes :: "(string \<times> string) list"

record loader_options =
  batch_size :: int
  shuffle :: bool

record 'img data_loaders =
  dataset :: "'img image_caption_dataset"
  train_dataset :: subset
  val_dataset :: subset
  train_loader :: loader_options
  val_loader :: loader_options

text \<open>
  \<^verbatim>\<open>obj.name = value\<close> on a \<^verbatim>\<open>Subset\<close>: the class defines no \<^verbatim>\<open>__setattr__\<close> and
  no property, so the assignment stores the value in the object itself.
\<close>

definition subset_setattr :: "subset \<Rightarrow> string \<Rightarrow> string \<Rightarrow> subset" where
  "subset_setattr s name v = s\<lparr>attributes := AList.update name v (attributes s)\<rparr>"

text \<open>
  \<^verbatim>\<open>_get_data_loaders\<close>.  The indices \<^verbatim>\<open>random_split\<close> draws for the two subsets
  are the parameters \<open>train_indices\<close> and \<open>val_indices\<close>, so the float arithmetic of
  \<^verbatim>\<open>train_size\<close> stays outside.
\<close>

definition get_data_loaders ::
  "'img image_caption_dataset \<Rightarrow> nat list \<Rightarrow> nat list \<Rightarrow> int \<Rightarrow> 'img data_loaders" where
  "get_data_loaders self_dataset train_indices val_indices bs =
     (let train_dataset0 = \<lparr>indices = train_indices, attributes = []\<rparr>;
          val_dataset0 = \<lparr>indices = val_indices, attributes = []\<rparr>;
          train_dataset1 = subset_setattr train_dataset0 ''mode'' ''train'';
          val_dataset1 = subset_setattr val_dataset0 ''mode'' ''val''
      in \<lparr>dataset = self_dataset,
          train_dataset = train_dataset1,
          val_dataset = val_dataset1,
          train_loader = \<lparr>batch_size = bs, shuffle = True\<rparr>,
          val_loader = \<lparr>batch_size = bs, shuffle = False\<rparr>\<rparr>)"

text \<open>
  \<^verbatim>\<open>Subset.__getitem__\<close>: \<^verbatim>\<open>self.dataset[self.indices[idx]]\<close>, on the dataset the
  subset refers to.  A data loader fetches every item of its batches this way.
\<close>

definition Subset_getitem ::
  "(string \<rightharpoonup> 'img) \<Rightarrow> ('img \<Rightarrow> 'img) \<Rightarrow> 'img image_caption_dataset \<Rightarrow> subset \<Rightarrow> int \<Rightarrow>
   py_error + ('img \<times> string)" where
  "Subset_getitem image_open convert_rgb referred s idx =
     (case list_getitem (indices s) idx of
        Inl e \<Rightarrow> Inl e
      | Inr i \<Rightarrow> ImageCaptionDataset_getitem image_open convert_rgb referred (int i))"

section \<open>Training and validation of one epoch\<close>

text \<open>
  \<^verbatim>\<open>_train\<close>, \<^verbatim>\<open>_validate\<close> and \<^verbatim>\<open>_clip_score\<close> are glue around \<^verbatim>\<open>torch\<close> and
  \<^verbatim>\<open>clip\<close>.  A tensor is the expression that computes it: an output of the CLIP model
  (of any type \<open>'x\<close>), or one of the operations of \<^verbatim>\<open>torch\<close> that the source applies.
  Every node carries the autograd mode in force when it was computed (\<open>True\<close>: gradients
  enabled).  \<open>Norm\<close> is \<^verbatim>\<open>.norm(dim=-1, keepdim=True)\<close>, \<open>DivBy\<close> the division by a
  Python number, \<open>Transposed\<close> is \<^verbatim>\<open>.t()\<close>.
\<close>

datatype 'x tensor =
    Output bool 'x
  | CrossEntropy bool "'x tensor" "nat list"
  | Add bool "'x tensor" "'x tensor"
  | DivBy bool "'x tensor" int
  | Norm bool "'x tensor"
  | Div bool "'x tensor" "'x tensor"
  | MatMul bool "'x tensor" "'x tensor"
  | Transposed bool "'x tensor"
  | Diag bool "'x tensor"
  | Mean bool "'x tensor"

text \<open>
  What the libraries do is taken as it comes.  \<open>'w\<close> is the state of the model and of the
  optimizer (weights, gradients, moments, training flag), \<open>'b\<close> a batch, moved to the
  device and tokenized.  The fields are \<^verbatim>\<open>self._model.train()\<close>,
  \<^verbatim>\<open>self._model.eval()\<close>, \<^verbatim>\<open>self._model(images, texts)\<close>,
  \<^verbatim>\<open>self._model.encode_image(images)\<close>, \<^verbatim>\<open>self._model.encode_text(texts)\<close>,
  \<^verbatim>\<open>len(images)\<close>, \<^verbatim>\<open>self._optimizer.zero_grad()\<close>, \<^verbatim>\<open>loss.backward()\<close>,
  \<^verbatim>\<open>self._optimizer.step()\<close>, \<^verbatim>\<open>.item()\<close>, and the addition of two Python floats
  and the division of a Python float by a nonzero int, whose rounding is left open.
\<close>

record ('w, 'b, 'x) torch =
  model_train :: "'w \<Rightarrow> 'w"
  model_eval :: "'w \<Rightarrow> 'w"
  model_call :: "'w \<Rightarrow> 'b \<Rightarrow> 'x \<times> 'x"
  encode_image :: "'w \<Rightarrow> 'b \<Rightarrow> 'x"
  encode_text :: "'w \<Rightarrow> 'b \<Rightarrow> 'x"
  len_images :: "'b \<Rightarrow> nat"
  zero_grad :: "'w \<Rightarrow> 'w"
  backward :: "'x tensor \<Rightarrow> 'w \<Rightarrow> 'w"
  optimizer_step :: "'w \<Rightarrow> 'w"
  item :: "'x tensor \<Rightarrow> pyfloat"
  float_add :: "pyfloat \<Rightarrow> pyfloat \<Rightarrow> pyfloat"
  float_div :: "pyfloat \<Rightarrow> int \<Rightarrow> pyfloat"

text \<open>
  \<^verbatim>\<open>with torch.no_grad():\<close> runs its body with gradients disabled and restores the
  mode afterwards.  A function that runs in the mode of its caller takes the mode as the
  argument \<open>grad\<close>.
\<close>

definition no_grad :: "(bool \<Rightarrow> 'a) \<Rightarrow> 'a" where
  "no_grad body = body False"

text \<open>
  The loop of \<^verbatim>\<open>_train\<close> over the batches that the training loader yields in this
  epoch, and \<^verbatim>\<open>_train\<close>.  \<^verbatim>\<open>_train\<close> is modelled with gradients enabled, the mode of
  a program that calls \<^verbatim>\<open>fit\<close> outside any \<^verbatim>\<open>no_grad\<close>.  \<^verbatim>\<open>len\<close> of the loader is
  the number of its batches; the division by 0 raises.
\<close>

fun train_loop ::
  "('w, 'b, 'x) torch \<Rightarrow> 'b list \<Rightarrow> 'w \<Rightarrow> pyfloat \<Rightarrow> 'w \<times> pyfloat" where
  "train_loop t [] w total_loss = (w, total_loss)"
| "train_loop t (batch # rest) w total_loss =
     (let (logits_per_image, logits_per_text) = model_call t w batch;
          ground_truth = [0 ..< len_images t batch];
          loss_img = CrossEntropy True (Output True logits_per_image) ground_truth;
          loss_txt = CrossEntropy True (Output True logits_per_text) ground_truth;
          loss = DivBy True (Add True loss_img loss_txt) 2;
          w1 = zero_grad t w;
          w2 = backward t loss w1;
          w3 = optimizer_step t w2
      in train_loop t rest w3 (float_add t total_loss (item t loss)))"

definition train ::
  "('w, 'b, 'x) torch \<Rightarrow> 'b list \<Rightarrow> 'w \<Rightarrow> py_error + ('w \<times> pyfloat)" where
  "train t train_batches w =
     (let w0 = model_train t w;
          (w', total_loss) = train_loop t train_batches w0 (Fin 0)
      in if length train_batches = 0 then Inl ZeroDivisionError
         else Inr (w', float_div t total_loss (int (length train_batches))))"

text \<open>
  \<^verbatim>\<open>_clip_score\<close>: the two encoders run under \<^verbatim>\<open>no_grad\<close>, the rest in the mode of
  the caller.
\<close>

definition clip_score :: "('w, 'b, 'x) torch \<Rightarrow> bool \<Rightarrow> 'w \<Rightarrow> 'b \<Rightarrow> 'x tensor" where
  "clip_score t grad w batch =
     (let (image_features0, text_features0) =
            no_grad (\<lambda>grad'. (Output grad' (encode_image t w batch),
                               Output grad' (encode_text t w batch)));
          image_features = Div grad image_features0 (Norm grad image_features0);
          text_features = Div grad text_features0 (Norm grad text_features0);
          score = Mean grad (Diag grad (MatMul grad image_features
                    (Transposed grad text_features)))
      in score)"

text \<open>
  The loop of \<^verbatim>\<open>_validate\<close>, in the mode \<open>grad\<close> of the block around it, and
  \<^verbatim>\<open>_validate\<close>, which returns the loss and then the score.
\<close>

fun validate_loop ::
  "('w, 'b, 'x) torch \<Rightarrow> bool \<Rightarrow> 'b list \<Rightarrow> 'w \<Rightarrow> pyfloat \<Rightarrow> pyfloat \<Rightarrow> pyfloat \<times> pyfloat" where
  "validate_loop t grad [] w total_loss total_score = (total_loss, total_score)"
| "validate_loop t grad (batch # rest) w total_loss total_score =
     (let (logits_per_image, logits_per_text) = model_call t w batch;
          ground_truth = [0 ..< len_images t batch];
          loss_img = CrossEntropy grad (Output grad logits_per_image) ground_truth;
          loss_txt = CrossEntropy grad (Output grad logits_per_text) ground_truth;
          loss = DivBy grad (Add grad loss_img loss_txt) 2;
          score = clip_score t grad w batch;
          total_score' = float_add t total_score (item t score);
          total_loss' = float_add t total_loss (item t loss)
      in validate_loop t grad rest w total_loss' total_score')"

definition validate ::
  "('w, 'b, 'x) torch \<Rightarrow> 'b list \<Rightarrow> 'w \<Rightarrow> py_error + ('w \<times> pyfloat \<times> pyfloat)" where
  "validate t val_batches w =
     (let w0 = model_eval t w;
          (total_loss, total_score) =
            no_grad (\<lambda>grad. validate_loop t grad val_batches w0 (Fin 0) (Fin 0))
      in if length val_batches = 0 then Inl ZeroDivisionError
         else Inr (w0, float_div t total_loss (int (length val_batches)),
                   float_div t total_score (int (length val_batches))))"

section \<open>What the claims speak of\<close>

text \<open>
  The score strictly improves on the best score so far: there is a best score, and the
  new one is greater (mode \<^verbatim>\<open>"max"\<close>) or smaller (any other mode, as the \<^verbatim>\<open>else\<close> of
  \<^verbatim>\<open>_is_improvement\<close> has it).
\<close>

definition improves :: "early_stopping \<Rightarrow> pyfloat \<Rightarrow> bool" where
  "improves es s =
     (case best_score es of
        None \<Rightarrow> False
      | Some b \<Rightarrow> if es_mode es = ''max'' then float_gt s b else float_lt s b)"

text \<open>
  What a call of \<^verbatim>\<open>__call__\<close> is, read off the sequence of scores alone: the first
  call, an improving call, or a non-improving (stagnant) call.  \<open>outcomes\<close> follows the
  best score through the sequence.
\<close>

datatype outcome = First | Improved | Stagnant

definition classify :: "string \<Rightarrow> pyfloat option \<Rightarrow> pyfloat \<Rightarrow> outcome" where
  "classify m best s =
     (case best of
        None \<Rightarrow> First
      | Some b \<Rightarrow>
          if (if m = ''max'' then float_gt s b else float_lt s b) then Improved else Stagnant)"

fun outcomes :: "string \<Rightarrow> pyfloat option \<Rightarrow> pyfloat list \<Rightarrow> outcome list" where
  "outcomes m best [] = []"
| "outcomes m best (s # ss) =
     classify m best s #
     outcomes m (if classify m best s = Stagnant then best else Some s) ss"

text \<open>
  The number of non-improving calls since the last improvement, or since the first call
  if there was no improvement: the length of the run of stagnant calls at the end.
\<close>

definition stagnant_count :: "outcome list \<Rightarrow> nat" where
  "stagnant_count os = length (takeWhile (\<lambda>oc. oc = Stagnant) (rev os))"

text \<open>
  Call number \<open>k\<close> (from 0) is non-improving and the count of non-improving calls has
  reached the patience there.
\<close>

definition patience_reached :: "int \<Rightarrow> outcome list \<Rightarrow> nat \<Rightarrow> bool" where
  "patience_reached p os k =
     (os ! k = Stagnant \<and> p \<le> int (stagnant_count (take (Suc k) os)))"

text \<open>
  The path of the checkpoint of an object, and the object with the three values of a call
  appended to its lists, as every call leaves them first.
\<close>

definition checkpoint_path :: "early_stopping \<Rightarrow> string" where
  "checkpoint_path es = path_join (dir_path es) ''checkpoint.pt''"

definition recorded :: "early_stopping \<Rightarrow> pyfloat \<Rightarrow> pyfloat \<Rightarrow> pyfloat \<Rightarrow> early_stopping" where
  "recorded es trl vl s =
     es\<lparr>train_loss := train_loss es @ [trl],
        val_loss := val_loss es @ [vl],
        val_scores := val_scores es @ [s]\<rparr>"

text \<open>
  Two disks: one on which every \<^verbatim>\<open>torch.save\<close> succeeds, and one without the directory,
  on which every \<^verbatim>\<open>torch.save\<close> raises.
\<close>

definition torch_save_ok :: "string \<Rightarrow> py_error option" where
  "torch_save_ok path = None"

definition torch_save_fails :: "string \<Rightarrow> py_error option" where
  "torch_save_fails path = Some RuntimeError"

text \<open>
  The invariant of a sequence of calls that have returned: after the calls whose outcomes
  are \<open>pre\<close> the object holds the best score \<open>b\<close>, its counter is the stagnant count, and
  its stop flag is set exactly if the patience was reached at one of these calls.
\<close>

definition es_inv ::
  "int \<Rightarrow> string \<Rightarrow> early_stopping \<Rightarrow> outcome list \<Rightarrow> pyfloat option \<Rightarrow> bool" where
  "es_inv p m es pre b =
     (best_score es = b \<and> counter es = int (stagnant_count pre) \<and>
      (stop es \<longleftrightarrow> (\<exists>k<length pre. patience_reached p pre k)) \<and>
      es_mode es = m \<and> patience es = p \<and> (b = None \<longrightarrow> pre = []))"

text \<open>
  The schedule acts in the iteration with loop index \<open>e\<close> of \<^verbatim>\<open>fit\<close>: the epoch
  number \<open>e + 1\<close> is at least \<^verbatim>\<open>unfreeze_from\<close> and a multiple of
  \<^verbatim>\<open>unfreeze_every\<close>.  \<open>fires uf ue n\<close> counts such iterations among the first \<open>n\<close>.
\<close>

definition firing :: "int \<Rightarrow> int \<Rightarrow> int \<Rightarrow> bool" where
  "firing uf ue e = (uf \<le> e + 1 \<and> (e + 1) mod ue = 0)"

definition fires :: "int \<Rightarrow> int \<Rightarrow> nat \<Rightarrow> nat" where
  "fires uf ue n = length (filter (\<lambda>e. firing uf ue (int e)) [0..<n])"

text \<open>
  The flags of a tower whose last \<open>k\<close> blocks are trainable and whose other blocks are
  frozen; \<open>schedule_model\<close> is the model with both projections and the last \<open>k\<close> blocks
  of either tower trainable and every other parameter frozen.
\<close>

definition trailing_unfrozen :: "nat \<Rightarrow> bool list list \<Rightarrow> bool list list" where
  "trailing_unfrozen k resblocks =
     map (\<lambda>(i, blk). map (\<lambda>p. length resblocks - k \<le> i) blk) (enumerate 0 resblocks)"

definition schedule_model :: "clip_model \<Rightarrow> nat \<Rightarrow> clip_model" where
  "schedule_model loaded k =
     \<lparr>visual_proj = True,
      text_projection = True,
      visual_transformer_resblocks = trailing_unfrozen k (visual_transformer_resblocks loaded),
      transformer_resblocks = trailing_unfrozen k (transformer_resblocks loaded),
      other_parameters = map (\<lambda>p. False) (other_parameters loaded)\<rparr>"

text \<open>
  The invariant of the epoch loop: after \<open>n\<close> iterations the last
  \<open>min tot (1 + fires uf ue n)\<close> blocks are trainable, and \<open>n\<close> scores are recorded.
\<close>

definition sched_inv :: "clip_model \<Rightarrow> int \<Rightarrow> int \<Rightarrow> clip_finetuner \<Rightarrow> nat \<Rightarrow> bool" where
  "sched_inv loaded uf ue self n =
     (model self =
        schedule_model loaded
          (min (length (visual_transformer_resblocks loaded)) (1 + fires uf ue n)) \<and>
      tot_blocks self = length (visual_transformer_resblocks loaded) \<and>
      unfreeze_from self = uf \<and> unfreeze_every self = ue \<and>
      length (val_scores (early_stopping self)) = n)"

text \<open>
  The epochs, counted from 1, in which the schedule acts as the specification and the
  docstring of \<^verbatim>\<open>_partial_unfreeze\<close> word it: \<^verbatim>\<open>unfreeze_from\<close>, and every
  \<^verbatim>\<open>unfreeze_every\<close> epochs thereafter.
\<close>

definition scheduled_epoch :: "int \<Rightarrow> int \<Rightarrow> int \<Rightarrow> bool" where
  "scheduled_epoch uf ue epoch = (uf \<le> epoch \<and> (epoch - uf) mod ue = 0)"

text \<open>
  Every parameter that is trainable on the left is trainable on the right.
\<close>

definition flags_le :: "bool list \<Rightarrow> bool list \<Rightarrow> bool" where
  "flags_le xs ys = list_all2 (\<lambda>a b. a \<longrightarrow> b) xs ys"

definition trainable_le :: "clip_model \<Rightarrow> clip_model \<Rightarrow> bool" where
  "trainable_le m m' =
     ((visual_proj m \<longrightarrow> visual_proj m') \<and>
      (text_projection m \<longrightarrow> text_projection m') \<and>
      list_all2 flags_le (visual_transformer_resblocks m) (visual_transformer_resblocks m') \<and>
      list_all2 flags_le (transformer_resblocks m) (transformer_resblocks m') \<and>
      flags_le (other_parameters m) (other_parameters m'))"

text \<open>
  A model with three blocks in either tower, and per-epoch results that never end the
  loop early (the score never improves, and the patience is 50).
\<close>

definition example_model :: clip_model where
  "example_model =
     \<lparr>visual_proj = False,
      text_projection = True,
      visual_transformer_resblocks = [[True], [True, False], [True]],
      transformer_resblocks = [[True], [True], [False, True]],
      other_parameters = [True, False]\<rparr>"

definition example_results :: "int \<Rightarrow> py_error + (pyfloat \<times> pyfloat \<times> pyfloat)" where
  "example_results epoch = Inr (Fin 0, Fin 0, Fin 0)"

text \<open>
  A dataset of two records whose images are strings, with augmenters that mark what they
  are applied to, and a disk that holds both image files.
\<close>

definition example_dataset :: "string image_caption_dataset" where
  "example_dataset =
     ImageCaptionDataset_init (\<lambda>image. ''augmented '' @ image) (\<lambda>text. ''augmented '' @ text)
       ''images/imagesf2'' ''artwork_captions.txt''
       [(''a.jpg'', ''a vase''), (''b.jpg'', ''a portrait'')]"

definition example_disk :: "string \<rightharpoonup> string" where
  "example_disk =
     [''data/images/imagesf2/a.jpg'' \<mapsto> ''pixels of a'',
      ''data/images/imagesf2/b.jpg'' \<mapsto> ''pixels of b'']"

text \<open>
  What fetching the record \<open>pair\<close> gives: the file named in the record, under the images
  directory, is opened (\<^verbatim>\<open>OSError\<close> if that fails) and converted to RGB; if
  \<open>augmented\<close>, the image augmenter is applied to the image and the text augmenter to
  the caption, otherwise both are returned as they are.
\<close>

definition fetched ::
  "(string \<rightharpoonup> 'img) \<Rightarrow> ('img \<Rightarrow> 'img) \<Rightarrow> 'img image_caption_dataset \<Rightarrow> bool \<Rightarrow>
   string \<times> string \<Rightarrow> py_error + ('img \<times> string)" where
  "fetched image_open convert_rgb self augmented pair =
     (case image_open (path_join (images_dir self) (fst pair)) of
        None \<Rightarrow> Inl OSError
      | Some opened \<Rightarrow>
          Inr (if augmented
               then (image_augmenter self (convert_rgb opened), text_augmenter self (snd pair))
               else (convert_rgb opened, snd pair)))"

text \<open>
  The loss of the specification: the mean of the two cross-entropies of the logits per
  image and per text against the labels \<open>0, \<dots>, B - 1\<close>, computed in the mode
  \<open>grad\<close>; \<open>batch_loss\<close> is this loss of the model's logits on a batch.
\<close>

definition symmetric_loss :: "bool \<Rightarrow> 'x \<Rightarrow> 'x \<Rightarrow> nat \<Rightarrow> 'x tensor" where
  "symmetric_loss grad logits_per_image logits_per_text B =
     DivBy grad
       (Add grad (CrossEntropy grad (Output grad logits_per_image) [0 ..< B])
                 (CrossEntropy grad (Output grad logits_per_text) [0 ..< B])) 2"

definition batch_loss :: "('w, 'b, 'x) torch \<Rightarrow> bool \<Rightarrow> 'w \<Rightarrow> 'b \<Rightarrow> 'x tensor" where
  "batch_loss t grad w batch =
     symmetric_loss grad (fst (model_call t w batch)) (snd (model_call t w batch))
       (len_images t batch)"

text \<open>
  The score of the specification: the mean of the diagonal of the matrix of cosine
  similarities, the product of the L2-normalized image features and the transposed
  L2-normalized text features, all computed with gradients disabled.
\<close>

definition l2_normalized :: "bool \<Rightarrow> 'x tensor \<Rightarrow> 'x tensor" where
  "l2_normalized grad x = Div grad x (Norm grad x)"

definition cosine_score :: "('w, 'b, 'x) torch \<Rightarrow> 'w \<Rightarrow> 'b \<Rightarrow> 'x tensor" where
  "cosine_score t w batch =
     Mean False (Diag False
       (MatMul False (l2_normalized False (Output False (encode_image t w batch)))
          (Transposed False (l2_normalized False (Output False (encode_text t w batch))))))"

text \<open>
  One training step on the state: the gradients are cleared, the loss of the batch is
  backpropagated, the optimizer steps.  \<open>step_losses\<close> lists the losses of the steps of
  an epoch, each computed on the state the steps before it left.
\<close>

definition optimizer_update :: "('w, 'b, 'x) torch \<Rightarrow> 'w \<Rightarrow> 'b \<Rightarrow> 'w" where
  "optimizer_update t w batch =
     optimizer_step t (backward t (batch_loss t True w batch) (zero_grad t w))"

fun step_losses :: "('w, 'b, 'x) torch \<Rightarrow> 'w \<Rightarrow> 'b list \<Rightarrow> 'x tensor list" where
  "step_losses t w [] = []"
| "step_losses t w (batch # rest) =
     batch_loss t True w batch # step_losses t (optimizer_update t w batch) rest"

text \<open>
  The average the source computes: the float sum from \<^verbatim>\<open>.0\<close>, in order, divided by the
  number of values.
\<close>

definition average :: "('w, 'b, 'x) torch \<Rightarrow> pyfloat list \<Rightarrow> pyfloat" where
  "average t xs = float_div t (foldl (float_add t) (Fin 0) xs) (int (length xs))"

text \<open>
  The autograd modes of all nodes of a tensor expression.
\<close>

fun grad_modes :: "'x tensor \<Rightarrow> bool list" where
  "grad_modes (Output g x) = [g]"
| "grad_modes (CrossEntropy g a labels) = g # grad_modes a"
| "grad_modes (Add g a b) = g # grad_modes a @ grad_modes b"
| "grad_modes (DivBy g a n) = g # grad_modes a"
| "grad_modes (Norm g a) = g # grad_modes a"
| "grad_modes (Div g a b) = g # grad_modes a @ grad_modes b"
| "grad_modes (MatMul g a b) = g # grad_modes a @ grad_modes b"
| "grad_modes (Transposed g a) = g # grad_modes a"
| "grad_modes (Diag g a) = g # grad_modes a"
| "grad_modes (Mean g a) = g # grad_modes a"

section \<open>EarlyStopping: checkpoints, patience and the stop flag\<close>

lemma is_improvement_appended:
  "best_score es = Some b \<Longrightarrow>
   is_improvement (es\<lparr>train_loss := x, val_loss := y, val_scores := z\<rparr>) s =
     Inr (improves es s)"
  by (simp add: is_improvement_def improves_def)

lemma call_eq:
  "EarlyStopping_call ts es trl vl s =
     (if improves es s then
        (case ts (checkpoint_path es) of
           Some e \<Rightarrow> Inl e
         | None \<Rightarrow>
             Inr (stop es, (recorded es trl vl s)\<lparr>best_score := Some s, counter := 0\<rparr>,
                  [checkpoint_path es]))
      else if best_score es = None then
        Inr (stop es, (recorded es trl vl s)\<lparr>best_score := Some s\<rparr>, [])
      else
        Inr (stop es \<or> patience es \<le> counter es + 1,
             (recorded es trl vl s)
               \<lparr>counter := counter es + 1,
                stop := (stop es \<or> patience es \<le> counter es + 1)\<rparr>, []))"
proof (cases "best_score es")
  case None
  then show ?thesis
    by (simp add: EarlyStopping_call_def improves_def recorded_def Let_def)
next
  case (Some b)
  show ?thesis
  proof (cases "improves es s")
    case True
    then show ?thesis
      using Some is_improvement_appended [OF Some]
      by (simp add: EarlyStopping_call_def Let_def save_checkpoint_def recorded_def
            checkpoint_path_def split: option.splits)
  next
    case False
    then show ?thesis
      using Some is_improvement_appended [OF Some]
      by (simp add: EarlyStopping_call_def Let_def recorded_def)
  qed
qed

text \<open>
  Claim C2.  What a call of \<^verbatim>\<open>EarlyStopping.__call__\<close> does, in full.  If the score
  strictly improves on the best score so far (there is one, and the score is greater in
  mode "max", smaller otherwise), the call saves the checkpoint: if \<^verbatim>\<open>torch.save\<close>
  raises, the call raises with it; otherwise the one file written is \<^verbatim>\<open>checkpoint.pt\<close>
  in the directory of the object, the best score becomes the score and the counter 0.
  If the score does not improve, nothing is written: the first call takes the score as
  the best score, any other call adds 1 to the counter and sets the stop flag if the
  counter has reached the patience.  So a call writes a checkpoint if and only if the
  score improves and \<^verbatim>\<open>torch.save\<close> succeeds.
\<close>

theorem checkpoint_iff_improvement:
  "EarlyStopping_call ts es trl vl s =
     (if improves es s then
        (case ts (checkpoint_path es) of
           Some e \<Rightarrow> Inl e
         | None \<Rightarrow>
             Inr (stop es, (recorded es trl vl s)\<lparr>best_score := Some s, counter := 0\<rparr>,
                  [checkpoint_path es]))
      else if best_score es = None then
        Inr (stop es, (recorded es trl vl s)\<lparr>best_score := Some s\<rparr>, [])
      else
        Inr (stop es \<or> patience es \<le> counter es + 1,
             (recorded es trl vl s)
               \<lparr>counter := counter es + 1,
                stop := (stop es \<or> patience es \<le> counter es + 1)\<rparr>, [])) \<and>
   ((\<exists>r es' w. EarlyStopping_call ts es trl vl s = Inr (r, es', w) \<and> w \<noteq> []) \<longleftrightarrow>
      (improves es s \<and> ts (checkpoint_path es) = None))"
proof
  show "EarlyStopping_call ts es trl vl s =
     (if improves es s then
        (case ts (checkpoint_path es) of
           Some e \<Rightarrow> Inl e
         | None \<Rightarrow>
             Inr (stop es, (recorded es trl vl s)\<lparr>best_score := Some s, counter := 0\<rparr>,
                  [checkpoint_path es]))
      else if best_score es = None then
        Inr (stop es, (recorded es trl vl s)\<lparr>best_score := Some s\<rparr>, [])
      else
        Inr (stop es \<or> patience es \<le> counter es + 1,
             (recorded es trl vl s)
               \<lparr>counter := counter es + 1,
                stop := (stop es \<or> patience es \<le> counter es + 1)\<rparr>, []))"
    by (rule call_eq)
next
  show "(\<exists>r es' w. EarlyStopping_call ts es trl vl s = Inr (r, es', w) \<and> w \<noteq> []) \<longleftrightarrow>
      (improves es s \<and> ts (checkpoint_path es) = None)"
    by (auto simp: call_eq split: option.splits)
qed

lemma call_facts:
  "case EarlyStopping_call ts es trl vl s of
     Inl e \<Rightarrow> improves es s \<and> ts (checkpoint_path es) = Some e
   | Inr (r, es', w) \<Rightarrow>
       r = stop es' \<and> dir_path es' = dir_path es \<and> es_mode es' = es_mode es \<and>
       patience es' = patience es \<and> (stop es \<longrightarrow> stop es') \<and> best_score es' \<noteq> None \<and>
       checkpoint_path es' = checkpoint_path es \<and>
       (improves es s \<longrightarrow> ts (checkpoint_path es) = None)"
  by (simp add: call_eq recorded_def checkpoint_path_def split: option.splits)

lemma call_returns_stop:
  "EarlyStopping_call ts es trl vl s = Inr (r, es', w) \<Longrightarrow> r = stop es' \<and> best_score es' \<noteq> None"
  using call_facts [where ts = ts and es = es and trl = trl and vl = vl and s = s] by simp

lemma call_after_stop:
  assumes "stop es" and "best_score es \<noteq> None"
  shows "EarlyStopping_call ts es trl vl s =
           (if improves es s then
              (case ts (checkpoint_path es) of
                 Some e \<Rightarrow> Inl e
               | None \<Rightarrow>
                   Inr (True, (recorded es trl vl s)\<lparr>best_score := Some s, counter := 0\<rparr>,
                        [checkpoint_path es]))
            else Inr (True, (recorded es trl vl s)\<lparr>counter := counter es + 1\<rparr>, []))"
proof -
  have "(recorded es trl vl s)\<lparr>counter := counter es + 1, stop := True\<rparr> =
        (recorded es trl vl s)\<lparr>counter := counter es + 1\<rparr>"
    using assms(1) by (simp add: recorded_def)
  moreover obtain b where "best_score es = Some b"
    using assms(2) by blast
  ultimately show ?thesis
    using assms(1) by (simp add: call_eq split: option.splits)
qed

lemma calls_keep_stop:
  "stop es \<Longrightarrow>
   (case EarlyStopping_calls ts es xs of
      Inl e \<Rightarrow> ts (checkpoint_path es) = Some e
    | Inr (rs, es', ws) \<Rightarrow> rs = replicate (length xs) True \<and> stop es')"
proof (induction xs arbitrary: es)
  case Nil
  then show ?case by simp
next
  case (Cons x xs)
  obtain trl vl s where x: "x = (trl, vl, s)" by (cases x)
  show ?case
  proof (cases "EarlyStopping_call ts es trl vl s")
    case (Inl e)
    then show ?thesis
      using x call_facts [where ts = ts and es = es and trl = trl and vl = vl and s = s] by simp
  next
    case (Inr t)
    obtain r es1 w where t: "t = (r, es1, w)" by (cases t)
    have f: "r = True" "stop es1" "checkpoint_path es1 = checkpoint_path es"
      using Inr t Cons.prems call_facts [where ts = ts and es = es and trl = trl and vl = vl and s = s]
      by simp_all
    show ?thesis
      using x Inr t f Cons.IH [OF f(2)]
      by (simp split: sum.splits prod.splits)
  qed
qed

text \<open>
  Claim C10.  Once a call has returned \<^verbatim>\<open>True\<close>, every later call that returns,
  returns \<^verbatim>\<open>True\<close>, whatever its arguments, and the flag stays set; a later call raises
  only with the exception of \<^verbatim>\<open>torch.save\<close>, so none raises where the checkpoint can
  be written.  A later improving call saves the checkpoint, resets the counter and takes
  the new best score, and still returns \<^verbatim>\<open>True\<close> (or raises, if \<^verbatim>\<open>torch.save\<close>
  does); a later non-improving call adds 1 to the counter and returns \<^verbatim>\<open>True\<close>.
\<close>

theorem stop_is_sticky:
  assumes "EarlyStopping_call ts0 es0 trl0 vl0 s0 = Inr (True, es, w0)"
  shows "(case EarlyStopping_calls ts es xs of
            Inl e \<Rightarrow> ts (checkpoint_path es) = Some e
          | Inr (rs, es', ws) \<Rightarrow> rs = replicate (length xs) True \<and> stop es') \<and>
         EarlyStopping_call ts es trl vl s =
           (if improves es s then
              (case ts (checkpoint_path es) of
                 Some e \<Rightarrow> Inl e
               | None \<Rightarrow>
                   Inr (True, (recorded es trl vl s)\<lparr>best_score := Some s, counter := 0\<rparr>,
                        [checkpoint_path es]))
            else Inr (True, (recorded es trl vl s)\<lparr>counter := counter es + 1\<rparr>, []))"
proof -
  from call_returns_stop [OF assms] have "stop es" "best_score es \<noteq> None" by simp_all
  then show ?thesis
    using calls_keep_stop [where es = es and ts = ts and xs = xs]
      call_after_stop [where es = es and ts = ts and trl = trl and vl = vl and s = s]
    by simp
qed

lemma stagnant_count_snoc:
  "stagnant_count (os @ [oc]) = (if oc = Stagnant then Suc (stagnant_count os) else 0)"
  by (simp add: stagnant_count_def)

lemma patience_reached_append:
  "k < length A \<Longrightarrow> patience_reached p (A @ B) k = patience_reached p A k"
  by (simp add: patience_reached_def nth_append)

lemma patience_reached_last:
  "patience_reached p (A @ [oc]) (length A) =
     (oc = Stagnant \<and> p \<le> int (stagnant_count (A @ [oc])))"
  by (simp add: patience_reached_def)

lemma ex_reached_snoc:
  "(\<exists>k<length (A @ [oc]). patience_reached p (A @ [oc]) k) =
     ((\<exists>k<length A. patience_reached p A k) \<or>
      (oc = Stagnant \<and> p \<le> int (stagnant_count (A @ [oc]))))"
proof -
  have "(\<exists>k<length (A @ [oc]). patience_reached p (A @ [oc]) k) =
        ((\<exists>k<length A. patience_reached p (A @ [oc]) k) \<or>
         patience_reached p (A @ [oc]) (length A))"
    by (auto simp: less_Suc_eq)
  then show ?thesis
    by (simp add: patience_reached_append patience_reached_last cong: conj_cong)
qed

lemma call_step:
  assumes "es_inv p m es pre b"
  shows "case EarlyStopping_call ts es trl vl s of
           Inl e \<Rightarrow> ts (checkpoint_path es) = Some e \<and> classify m b s = Improved
         | Inr (r, es1, w) \<Rightarrow>
             r = stop es1 \<and> checkpoint_path es1 = checkpoint_path es \<and>
             (classify m b s = Improved \<longrightarrow> ts (checkpoint_path es) = None) \<and>
             es_inv p m es1 (pre @ [classify m b s])
               (if classify m b s = Stagnant then b else Some s)"
proof -
  have cl: "classify m b s =
      (case b of None \<Rightarrow> First | Some x \<Rightarrow> if improves es s then Improved else Stagnant)"
    using assms by (simp add: classify_def improves_def es_inv_def split: option.splits)
  have bs: "best_score es = b" using assms by (simp add: es_inv_def)
  show ?thesis
  proof (cases b)
    case None
    then have "\<not> improves es s" using bs by (simp add: improves_def)
    then show ?thesis
      using assms None bs cl
      unfolding es_inv_def
      by (simp add: call_eq recorded_def checkpoint_path_def stagnant_count_def
            patience_reached_def)
  next
    case (Some x)
    show ?thesis
    proof (cases "improves es s")
      case True
      then show ?thesis
        using assms Some bs cl
        unfolding es_inv_def ex_reached_snoc
        by (simp add: call_eq recorded_def checkpoint_path_def stagnant_count_snoc
              split: option.splits)
    next
      case False
      then show ?thesis
        using assms Some bs cl
        unfolding es_inv_def ex_reached_snoc
        by (auto simp: call_eq recorded_def checkpoint_path_def stagnant_count_snoc)
    qed
  qed
qed

lemma calls_from_inv:
  assumes "es_inv p m es pre b"
  shows "case EarlyStopping_calls ts es xs of
           Inl e \<Rightarrow>
             ts (checkpoint_path es) = Some e \<and>
             Improved \<in> set (outcomes m b (map (\<lambda>(trl, vl, vs). vs) xs))
         | Inr (rs, es', ws) \<Rightarrow>
             (ts (checkpoint_path es) = None \<or>
              Improved \<notin> set (outcomes m b (map (\<lambda>(trl, vl, vs). vs) xs))) \<and>
             length rs = length xs \<and>
             counter es' =
               int (stagnant_count (pre @ outcomes m b (map (\<lambda>(trl, vl, vs). vs) xs))) \<and>
             (\<forall>n<length xs. rs ! n =
                (\<exists>k\<le>length pre + n.
                   patience_reached p (pre @ outcomes m b (map (\<lambda>(trl, vl, vs). vs) xs)) k))"
  using assms
proof (induction xs arbitrary: es pre b)
  case Nil
  then show ?case by (simp add: es_inv_def)
next
  case (Cons x xs)
  obtain trl vl s where x: "x = (trl, vl, s)" by (cases x)
  define oc where "oc = classify m b s"
  define b' where "b' = (if oc = Stagnant then b else Some s)"
  define rest where "rest = outcomes m b' (map (\<lambda>(trl, vl, vs). vs) xs)"
  have os: "outcomes m b (map (\<lambda>(trl, vl, vs). vs) (x # xs)) = oc # rest"
    by (simp add: x oc_def b'_def rest_def)
  note step = call_step [OF Cons.prems, where ts = ts and trl = trl and vl = vl and s = s,
      folded oc_def, folded b'_def]
  show ?case
  proof (cases "EarlyStopping_call ts es trl vl s")
    case (Inl e)
    then show ?thesis
      using step x unfolding os by simp
  next
    case (Inr t)
    obtain r es1 w where t: "t = (r, es1, w)" by (cases t)
    have r: "r = stop es1" and cp: "checkpoint_path es1 = checkpoint_path es"
      and imp: "oc = Improved \<longrightarrow> ts (checkpoint_path es) = None"
      and inv1: "es_inv p m es1 (pre @ [oc]) b'"
      using step Inr t by simp_all
    note ih = Cons.IH [OF inv1, folded rest_def]
    show ?thesis
    proof (cases "EarlyStopping_calls ts es1 xs")
      case (Inl e)
      then show ?thesis
        using ih x Inr t cp unfolding os by simp
    next
      case c2: (Inr u)
      obtain rs es' ws where u: "u = (rs, es', ws)" by (cases u)
      have ok: "ts (checkpoint_path es) = None \<or> Improved \<notin> set rest"
        and len: "length rs = length xs"
        and cnt: "counter es' = int (stagnant_count ((pre @ [oc]) @ rest))"
        and flags: "\<forall>n<length xs. rs ! n =
                      (\<exists>k\<le>length (pre @ [oc]) + n.
                         patience_reached p ((pre @ [oc]) @ rest) k)"
        using ih c2 u cp by simp_all
      have r0: "r = (\<exists>k\<le>length pre. patience_reached p ((pre @ [oc]) @ rest) k)"
      proof -
        have "r = (\<exists>k<length (pre @ [oc]). patience_reached p (pre @ [oc]) k)"
          using r inv1 by (simp add: es_inv_def)
        also have "\<dots> = (\<exists>k<length (pre @ [oc]). patience_reached p ((pre @ [oc]) @ rest) k)"
          using patience_reached_append [of _ "pre @ [oc]" p rest] by blast
        also have "\<dots> = (\<exists>k\<le>length pre. patience_reached p ((pre @ [oc]) @ rest) k)"
          by (simp add: less_Suc_eq_le)
        finally show ?thesis .
      qed
      have fl: "\<forall>n<length (x # xs). (r # rs) ! n =
              (\<exists>k\<le>length pre + n. patience_reached p (pre @ oc # rest) k)"
      proof (intro allI impI)
        fix n assume n: "n < length (x # xs)"
        show "(r # rs) ! n = (\<exists>k\<le>length pre + n. patience_reached p (pre @ oc # rest) k)"
        proof (cases n)
          case 0
          then show ?thesis using r0 by simp
        next
          case (Suc n')
          then have "n' < length xs" using n by simp
          with flags have "rs ! n' =
              (\<exists>k\<le>length (pre @ [oc]) + n'. patience_reached p ((pre @ [oc]) @ rest) k)"
            by blast
          then show ?thesis using Suc by simp
        qed
      qed
      have ok': "ts (checkpoint_path es) = None \<or> Improved \<notin> set (oc # rest)"
        using ok imp by auto
      show ?thesis
        unfolding os using x Inr t c2 u len cnt fl ok' by simp
    qed
  qed
qed

lemma init_inv: "es_inv p m (EarlyStopping_init p d m) [] None"
  by (simp add: es_inv_def EarlyStopping_init_def stagnant_count_def)

section \<open>The unfreezing schedule\<close>

lemma fires_Suc:
  "fires uf ue (Suc n) = fires uf ue n + (if firing uf ue (int n) then 1 else 0)"
  by (simp add: fires_def)

lemma div_succ:
  fixes n ue :: int
  assumes "1 \<le> ue"
  shows "(n + 1) div ue = n div ue + (if (n + 1) mod ue = 0 then 1 else 0)"
proof -
  define q r where "q = n div ue" and "r = n mod ue"
  have n: "n = ue * q + r" by (simp add: q_def r_def)
  have r: "0 \<le> r" "r < ue" using assms by (simp_all add: r_def)
  show ?thesis
  proof (cases "r + 1 = ue")
    case True
    have e: "n + 1 = ue * (q + 1) + 0" using n True by (simp add: algebra_simps)
    have "(n + 1) div ue = q + 1" "(n + 1) mod ue = 0"
      using int_div_pos_eq [OF e] int_mod_pos_eq [OF e] assms by simp_all
    then show ?thesis by (simp add: q_def)
  next
    case False
    have e: "n + 1 = ue * q + (r + 1)" using n by simp
    have "(n + 1) div ue = q" "(n + 1) mod ue = r + 1"
      using int_div_pos_eq [OF e] int_mod_pos_eq [OF e] r False by simp_all
    then show ?thesis using r by (simp add: q_def)
  qed
qed

lemma firing_blocks:
  fixes E uf ue :: int
  assumes "1 \<le> uf" "1 \<le> ue" "E mod ue = 0"
  shows "(E - uf + ue) div ue = E div ue - (uf - 1) div ue"
proof -
  define a c where "a = (uf - 1) div ue" and "c = (uf - 1) mod ue"
  have u: "uf - 1 = ue * a + c" by (simp add: a_def c_def)
  have c: "0 \<le> c" "c < ue" using assms by (simp_all add: c_def)
  have E: "E = ue * (E div ue)" using assms(3) by (simp add: mod_eq_0_iff_dvd)
  have "E - uf + ue = ue * (E div ue) - (ue * a + c + 1) + ue"
    using E u by simp
  then have e: "E - uf + ue = ue * (E div ue - a) + (ue - 1 - c)"
    by (simp add: algebra_simps)
  show ?thesis
    using int_div_pos_eq [OF e] c by (simp add: a_def)
qed

lemma firing_blocks_pos:
  fixes E uf ue :: int
  assumes "1 \<le> uf" "1 \<le> ue" "uf \<le> E" "E mod ue = 0"
  shows "1 \<le> E div ue - (uf - 1) div ue"
proof -
  define a c where "a = (uf - 1) div ue" and "c = (uf - 1) mod ue"
  have u: "uf - 1 = ue * a + c" by (simp add: a_def c_def)
  have c: "0 \<le> c" using assms by (simp add: c_def)
  have E: "E = ue * (E div ue)" using assms(4) by (simp add: mod_eq_0_iff_dvd)
  have "ue * a < ue * (E div ue)" using u c E assms(3) by linarith
  then have "a < E div ue" using assms(2) by (simp add: mult_less_cancel_left_pos)
  then show ?thesis by (simp add: a_def)
qed

lemma fires_closed:
  assumes "1 \<le> uf" "1 \<le> ue"
  shows "int (fires uf ue n) = max 0 (int n div ue - (uf - 1) div ue)"
proof (induction n)
  case 0
  have "0 \<le> (uf - 1) div ue" using assms by (simp add: pos_imp_zdiv_nonneg_iff)
  then show ?case by (simp add: fires_def)
next
  case (Suc n)
  have d: "(int n + 1) div ue = int n div ue + (if (int n + 1) mod ue = 0 then 1 else 0)"
    using div_succ [OF assms(2)] .
  show ?case
  proof (cases "firing uf ue (int n)")
    case True
    then have f: "uf \<le> int n + 1" "(int n + 1) mod ue = 0" by (simp_all add: firing_def)
    have "1 \<le> (int n + 1) div ue - (uf - 1) div ue"
      using firing_blocks_pos [OF assms f] .
    then show ?thesis using True Suc d f by (simp add: fires_Suc add.commute)
  next
    case False
    show ?thesis
    proof (cases "(int n + 1) mod ue = 0")
      case True
      with False have "int n + 1 \<le> uf - 1" by (simp add: firing_def)
      then have "(int n + 1) div ue \<le> (uf - 1) div ue"
        using assms(2) by (simp add: zdiv_mono1)
      then show ?thesis using False Suc d True by (simp add: fires_Suc add.commute)
    next
      case F2: False
      then show ?thesis using False Suc d by (simp add: fires_Suc add.commute)
    qed
  qed
qed

lemma firing_request:
  assumes "1 \<le> uf" "1 \<le> ue" "firing uf ue (int n)"
  shows "(int n + 1 - uf + ue) div ue + 1 = int (fires uf ue n) + 2"
proof -
  have f: "uf \<le> int n + 1" "(int n + 1) mod ue = 0"
    using assms(3) by (simp_all add: firing_def)
  have p: "1 \<le> (int n + 1) div ue - (uf - 1) div ue"
    using firing_blocks_pos [OF assms(1,2) f] .
  have "int (fires uf ue (Suc n)) = (int n + 1) div ue - (uf - 1) div ue"
    using fires_closed [OF assms(1,2), of "Suc n"] p by (simp add: add.commute)
  moreover have "(int n + 1 - uf + ue) div ue = (int n + 1) div ue - (uf - 1) div ue"
    using firing_blocks [OF assms(1,2) f(2)] .
  ultimately show ?thesis using assms(3) by (simp add: fires_Suc)
qed

lemma unfreeze_range_nth:
  assumes "\<forall>i\<in>set idx. i < length resblocks"
  shows "\<exists>res. unfreeze_range resblocks idx = Inr res \<and> length res = length resblocks \<and>
           (\<forall>i<length resblocks.
              res ! i = (if i \<in> set idx then map (\<lambda>p. True) (resblocks ! i) else resblocks ! i))"
  using assms
proof (induction idx arbitrary: resblocks)
  case Nil
  then show ?case by simp
next
  case (Cons a idx)
  let ?b = "resblocks[a := map (\<lambda>p. True) (resblocks ! a)]"
  have a: "a < length resblocks" using Cons.prems by simp
  have "\<forall>i\<in>set idx. i < length ?b" using Cons.prems by simp
  from Cons.IH [OF this] obtain res where
    r: "unfreeze_range ?b idx = Inr res" "length res = length ?b"
       "\<forall>i<length ?b. res ! i = (if i \<in> set idx then map (\<lambda>p. True) (?b ! i) else ?b ! i)"
    by blast
  have "\<forall>i<length resblocks.
          res ! i = (if i \<in> set (a # idx) then map (\<lambda>p. True) (resblocks ! i) else resblocks ! i)"
    using r(3) a by (auto simp: nth_list_update)
  then show ?case using r(1,2) a by simp
qed

lemma trailing_length [simp]: "length (trailing_unfrozen k orig) = length orig"
  by (simp add: trailing_unfrozen_def)

lemma trailing_nth:
  "i < length orig \<Longrightarrow>
   trailing_unfrozen k orig ! i = map (\<lambda>p. length orig - k \<le> i) (orig ! i)"
  by (simp add: trailing_unfrozen_def nth_enumerate_eq)

lemma frozen_is_trailing: "map (map (\<lambda>p. False)) orig = trailing_unfrozen 0 orig"
  by (rule nth_equalityI) (simp_all add: trailing_nth)

lemma unfreeze_range_trailing:
  assumes "k \<le> b" "b \<le> length orig"
  shows "unfreeze_range (trailing_unfrozen k orig) [length orig - b ..< length orig] =
           Inr (trailing_unfrozen b orig)"
proof -
  have "\<forall>i\<in>set [length orig - b ..< length orig]. i < length (trailing_unfrozen k orig)"
    by simp
  from unfreeze_range_nth [OF this] obtain res where
    r: "unfreeze_range (trailing_unfrozen k orig) [length orig - b ..< length orig] = Inr res"
       "length res = length orig"
       "\<forall>i<length orig. res ! i =
          (if i \<in> set [length orig - b ..< length orig]
           then map (\<lambda>p. True) (trailing_unfrozen k orig ! i)
           else trailing_unfrozen k orig ! i)"
    by auto
  have "res = trailing_unfrozen b orig"
  proof (rule nth_equalityI)
    show "length res = length (trailing_unfrozen b orig)" using r(2) by simp
  next
    fix i assume "i < length res"
    then have i: "i < length orig" using r(2) by simp
    show "res ! i = trailing_unfrozen b orig ! i"
      using r(3) i assms by (auto simp: trailing_nth)
  qed
  then show ?thesis using r(1) by simp
qed

lemma unfreeze_blocks_trailing:
  assumes tot: "tot_blocks self = length (visual_transformer_resblocks loaded)"
    and len: "length (transformer_resblocks loaded) = length (visual_transformer_resblocks loaded)"
    and m: "model self = (schedule_model loaded k)\<lparr>visual_proj := p1, text_projection := p2\<rparr>"
    and k: "int k \<le> b"
  shows "unfreeze_blocks self b =
           Inr (self\<lparr>model := schedule_model loaded
                   (min (length (visual_transformer_resblocks loaded)) (nat b))\<rparr>)"
proof -
  let ?tot = "length (visual_transformer_resblocks loaded)"
  define b' where "b' = (if b > int ?tot then int ?tot else b)"
  define K where "K = min ?tot (nat b)"
  have b': "nat (int ?tot - b') = ?tot - K" "int K = b'"
    using k by (auto simp: b'_def K_def)
  have kK: "min k ?tot \<le> K" "K \<le> ?tot" using k by (auto simp: K_def)
  have tk: "\<And>orig. length orig = ?tot \<Longrightarrow> trailing_unfrozen k orig = trailing_unfrozen (min k ?tot) orig"
    by (rule nth_equalityI) (auto simp: trailing_nth)
  have v: "unfreeze_range (trailing_unfrozen k (visual_transformer_resblocks loaded))
             [?tot - K ..< ?tot] = Inr (trailing_unfrozen K (visual_transformer_resblocks loaded))"
    using unfreeze_range_trailing [OF kK(1), of "visual_transformer_resblocks loaded"] kK(2) tk
    by simp
  have t: "unfreeze_range (trailing_unfrozen k (transformer_resblocks loaded))
             [?tot - K ..< ?tot] = Inr (trailing_unfrozen K (transformer_resblocks loaded))"
    using unfreeze_range_trailing [OF kK(1), of "transformer_resblocks loaded"] kK(2) tk len
    by simp
  show ?thesis
    unfolding unfreeze_blocks_def Let_def b'_def [symmetric] tot b'(1) m
    using v t by (simp add: schedule_model_def K_def)
qed

lemma init_schedule:
  assumes len: "length (transformer_resblocks loaded) = length (visual_transformer_resblocks loaded)"
  shows "\<exists>self. CLIPFinetuner_init loaded uf ue = Inr self \<and> sched_inv loaded uf ue self 0"
proof -
  let ?self = "\<lparr>model = loaded,
                  tot_blocks = length (visual_transformer_resblocks loaded),
                  unfreeze_from = uf,
                  unfreeze_every = ue,
                  early_stopping = EarlyStopping_init 50 ''models'' ''max''\<rparr>"
  have m: "model (freeze_model ?self) =
             (schedule_model loaded 0)\<lparr>visual_proj := False, text_projection := False\<rparr>"
    by (simp add: freeze_model_def schedule_model_def frozen_is_trailing)
  have tot: "tot_blocks (freeze_model ?self) = length (visual_transformer_resblocks loaded)"
    by (simp add: freeze_model_def)
  have "unfreeze_blocks (freeze_model ?self) 1 =
          Inr ((freeze_model ?self)\<lparr>model := schedule_model loaded
                  (min (length (visual_transformer_resblocks loaded)) (nat 1))\<rparr>)"
    by (rule unfreeze_blocks_trailing [OF tot len m]) simp
  then show ?thesis
    by (simp add: CLIPFinetuner_init_def Let_def sched_inv_def fires_def freeze_model_def
          EarlyStopping_init_def)
qed

lemma partial_unfreeze_schedule:
  assumes uf: "1 \<le> uf" and ue: "1 \<le> ue"
    and len: "length (transformer_resblocks loaded) = length (visual_transformer_resblocks loaded)"
    and inv: "sched_inv loaded uf ue self n"
  shows "\<exists>self1. partial_unfreeze self (int n) = Inr self1 \<and>
           early_stopping self1 = early_stopping self \<and>
           model self1 =
             schedule_model loaded
               (min (length (visual_transformer_resblocks loaded)) (1 + fires uf ue (Suc n))) \<and>
           tot_blocks self1 = tot_blocks self \<and> unfreeze_from self1 = uf \<and>
           unfreeze_every self1 = ue"
proof -
  let ?tot = "length (visual_transformer_resblocks loaded)"
  have f: "unfreeze_from self = uf" "unfreeze_every self = ue" "tot_blocks self = ?tot"
    and m: "model self = schedule_model loaded (min ?tot (1 + fires uf ue n))"
    using inv by (simp_all add: sched_inv_def)
  show ?thesis
  proof (cases "firing uf ue (int n)")
    case False
    then have "partial_unfreeze self (int n) = Inr self"
      using ue by (auto simp: partial_unfreeze_def Let_def f firing_def)
    then show ?thesis using False m f by (simp add: fires_Suc)
  next
    case True
    then have c: "uf \<le> int n + 1" "(int n + 1) mod ue = 0" by (simp_all add: firing_def)
    have req: "(int n + 1 - uf + ue) div ue + 1 = int (fires uf ue n) + 2"
      using firing_request [OF uf ue True] .
    have "partial_unfreeze self (int n) =
            (if (int n + 1 - uf + ue) div ue + 1 \<le> int ?tot
             then unfreeze_blocks self ((int n + 1 - uf + ue) div ue + 1) else Inr self)"
      using c ue by (simp add: partial_unfreeze_def Let_def f)
    then have pu: "partial_unfreeze self (int n) =
            (if int (fires uf ue n) + 2 \<le> int ?tot
             then unfreeze_blocks self (int (fires uf ue n) + 2) else Inr self)"
      unfolding req .
    show ?thesis
    proof (cases "int (fires uf ue n) + 2 \<le> int ?tot")
      case le: True
      have m': "model self =
          (schedule_model loaded (min ?tot (1 + fires uf ue n)))
            \<lparr>visual_proj := True, text_projection := True\<rparr>"
        using m by (simp add: schedule_model_def)
      have "unfreeze_blocks self (int (fires uf ue n) + 2) =
              Inr (self\<lparr>model := schedule_model loaded (min ?tot (nat (int (fires uf ue n) + 2)))\<rparr>)"
        by (rule unfreeze_blocks_trailing [OF f(3) len m']) simp
      moreover have "nat (int (fires uf ue n) + 2) = 1 + fires uf ue (Suc n)"
        using True by (simp add: fires_Suc)
      ultimately have "partial_unfreeze self (int n) =
              Inr (self\<lparr>model := schedule_model loaded (min ?tot (1 + fires uf ue (Suc n)))\<rparr>)"
        using pu le by simp
      then show ?thesis using f by simp
    next
      case gt: False
      then have "partial_unfreeze self (int n) = Inr self"
        using pu by simp
      moreover have "min ?tot (1 + fires uf ue n) = min ?tot (1 + fires uf ue (Suc n))"
        using gt True by (simp add: fires_Suc)
      ultimately show ?thesis using m f by simp
    qed
  qed
qed

lemma call_appends_score:
  "EarlyStopping_call ts es trl vl s = Inr (r, es', w) \<Longrightarrow> val_scores es' = val_scores es @ [s]"
  by (auto simp: EarlyStopping_call_def is_improvement_def save_checkpoint_def Let_def
        split: option.splits if_splits bool.splits)

lemma fit_loop_schedule:
  assumes uf: "1 \<le> uf" and ue: "1 \<le> ue"
    and len: "length (transformer_resblocks loaded) = length (visual_transformer_resblocks loaded)"
  shows "sched_inv loaded uf ue self n \<Longrightarrow>
         fit_loop ts self (map int [n..<N]) results = Inr (self', ws) \<Longrightarrow>
         \<exists>n'. n \<le> n' \<and> n' \<le> max n N \<and> sched_inv loaded uf ue self' n'"
proof (induction "N - n" arbitrary: n self ws)
  case 0
  then show ?case by auto
next
  case (Suc d)
  then have nN: "n < N" by simp
  then have l: "map int [n..<N] = int n # map int [Suc n..<N]"
    by (simp add: upt_conv_Cons)
  from partial_unfreeze_schedule [OF uf ue len Suc.prems(1)] obtain self1 where
    p: "partial_unfreeze self (int n) = Inr self1"
      "early_stopping self1 = early_stopping self"
      "model self1 = schedule_model loaded
         (min (length (visual_transformer_resblocks loaded)) (1 + fires uf ue (Suc n)))"
      "tot_blocks self1 = tot_blocks self" "unfreeze_from self1 = uf" "unfreeze_every self1 = ue"
    by blast
  from Suc.prems(2) obtain trl vl vs where r: "results (int n) = Inr (trl, vl, vs)"
    unfolding l using p(1) by (auto split: sum.splits)
  from Suc.prems(2) obtain st es w where
    c: "EarlyStopping_call ts (early_stopping self1) trl vl vs = Inr (st, es, w)"
    unfolding l using p(1) r by (auto split: sum.splits)
  let ?s2 = "self1\<lparr>early_stopping := es\<rparr>"
  have inv2: "sched_inv loaded uf ue ?s2 (Suc n)"
    using p call_appends_score [OF c] Suc.prems(1) by (simp add: sched_inv_def)
  show ?case
  proof (cases st)
    case True
    then have "self' = ?s2" using Suc.prems(2) p(1) r c unfolding l by simp
    then show ?thesis using inv2 nN by (intro exI [of _ "Suc n"]) simp
  next
    case False
    then obtain ws' where
      "fit_loop ts ?s2 (map int [Suc n..<N]) results = Inr (self', ws')"
      using Suc.prems(2) p(1) r c unfolding l by (auto split: sum.splits)
    moreover have "d = N - Suc n" using Suc.hyps(2) by simp
    ultimately obtain n' where "Suc n \<le> n'" "n' \<le> max (Suc n) N" "sched_inv loaded uf ue self' n'"
      using Suc.hyps(1) inv2 by blast
    then show ?thesis using nN by (intro exI [of _ n']) simp
  qed
qed

text \<open>
  The schedule that the code follows, for \<^verbatim>\<open>unfreeze_from\<close> and \<^verbatim>\<open>unfreeze_every\<close>
  at least 1 and towers of the same depth: it acts in the epochs (counted from 1) that are
  at least \<^verbatim>\<open>unfreeze_from\<close> and multiples of \<^verbatim>\<open>unfreeze_every\<close>, and after
  \<^verbatim>\<open>fit\<close> has run \<open>n\<close> epochs the trainable blocks are exactly the last
  \<open>min tot (1 + fires uf ue n)\<close> of either tower.  The epochs run are those whose score
  \<^verbatim>\<open>EarlyStopping\<close> recorded.
\<close>

theorem unfreeze_schedule:
  assumes "1 \<le> uf" and "1 \<le> ue"
    and "length (transformer_resblocks loaded) = length (visual_transformer_resblocks loaded)"
    and "CLIPFinetuner_init loaded uf ue = Inr self0"
    and "fit ts self0 epochs results = Inr (self, ws)"
  shows "model self =
           schedule_model loaded
             (min (length (visual_transformer_resblocks loaded))
                (1 + fires uf ue (length (val_scores (early_stopping self))))) \<and>
         length (val_scores (early_stopping self)) \<le> nat epochs"
proof -
  from init_schedule [OF assms(3), of uf ue] assms(4)
  have i: "sched_inv loaded uf ue self0 0" by simp
  from fit_loop_schedule [OF assms(1-3) i, where N = "nat epochs" and results = results
      and self' = self and ws = ws and ts = ts] assms(5)
  obtain n' where "n' \<le> nat epochs" "sched_inv loaded uf ue self n'"
    by (auto simp: fit_def)
  then show ?thesis by (auto simp: sched_inv_def)
qed

section \<open>Trainable parameters only grow\<close>

lemma flags_le_refl: "flags_le xs xs"
  by (simp add: flags_le_def list_all2_refl)

lemma flags_le_trans: "flags_le xs ys \<Longrightarrow> flags_le ys zs \<Longrightarrow> flags_le xs zs"
  unfolding flags_le_def by (rule list_all2_trans) auto

lemma blocks_le_refl: "list_all2 flags_le bs bs"
  by (simp add: list_all2_refl flags_le_refl)

lemma blocks_le_trans:
  "list_all2 flags_le as bs \<Longrightarrow> list_all2 flags_le bs cs \<Longrightarrow> list_all2 flags_le as cs"
  by (rule list_all2_trans [of flags_le flags_le flags_le]) (auto intro: flags_le_trans)

lemma trainable_le_refl: "trainable_le m m"
  by (simp add: trainable_le_def blocks_le_refl flags_le_refl)

lemma trainable_le_trans:
  "trainable_le a b \<Longrightarrow> trainable_le b c \<Longrightarrow> trainable_le a c"
  unfolding trainable_le_def by (blast intro: blocks_le_trans flags_le_trans)

lemma flags_le_all_true: "flags_le blk (map (\<lambda>p. True) blk)"
  by (simp add: flags_le_def list_all2_map2 list_all2_refl)

lemma update_le:
  "i < length bs \<Longrightarrow> list_all2 flags_le bs (bs[i := map (\<lambda>p. True) (bs ! i)])"
  by (auto simp: list_all2_conv_all_nth nth_list_update flags_le_refl flags_le_all_true)

lemma unfreeze_range_mono:
  "unfreeze_range bs idx = Inr res \<Longrightarrow> list_all2 flags_le bs res"
proof (induction idx arbitrary: bs)
  case Nil
  then show ?case by (simp add: blocks_le_refl)
next
  case (Cons i idx)
  then have i: "i < length bs"
    and r: "unfreeze_range (bs[i := map (\<lambda>p. True) (bs ! i)]) idx = Inr res"
    by (auto split: if_splits)
  from blocks_le_trans [OF update_le [OF i] Cons.IH [OF r]] show ?case .
qed

lemma unfreeze_blocks_mono:
  "unfreeze_blocks self b = Inr self' \<Longrightarrow> trainable_le (model self) (model self')"
  by (auto simp: unfreeze_blocks_def Let_def trainable_le_def flags_le_refl
        split: sum.splits dest: unfreeze_range_mono)

lemma partial_unfreeze_mono:
  "partial_unfreeze self epoch = Inr self' \<Longrightarrow> trainable_le (model self) (model self')"
  by (auto simp: partial_unfreeze_def Let_def trainable_le_refl
        split: if_splits dest: unfreeze_blocks_mono)

lemma fit_loop_mono:
  "fit_loop ts self xs results = Inr (s, w) \<Longrightarrow> trainable_le (model self) (model s)"
proof (induction xs arbitrary: self w)
  case Nil
  then show ?case by (simp add: trainable_le_refl)
next
  case (Cons x xs)
  from Cons.prems obtain self1 where p: "partial_unfreeze self x = Inr self1"
    by (auto split: sum.splits)
  from Cons.prems p obtain trl vl vs where r: "results x = Inr (trl, vl, vs)"
    by (auto split: sum.splits)
  from Cons.prems p r obtain st es w0 where
    c: "EarlyStopping_call ts (early_stopping self1) trl vl vs = Inr (st, es, w0)"
    by (auto split: sum.splits)
  have 1: "trainable_le (model self) (model self1)" using partial_unfreeze_mono [OF p] .
  show ?case
  proof (cases st)
    case True
    then have "s = self1\<lparr>early_stopping := es\<rparr>" using Cons.prems p r c by simp
    then show ?thesis using 1 by simp
  next
    case False
    then obtain w' where "fit_loop ts (self1\<lparr>early_stopping := es\<rparr>) xs results = Inr (s, w')"
      using Cons.prems p r c by (auto split: sum.splits)
    from Cons.IH [OF this] have "trainable_le (model self1) (model s)" by simp
    with 1 show ?thesis by (rule trainable_le_trans)
  qed
qed

lemma fit_loop_append:
  "fit_loop ts self (xs @ ys) results = Inr (s2, w2) \<Longrightarrow>
   \<exists>s1 w1. fit_loop ts self xs results = Inr (s1, w1) \<and>
     (s2 = s1 \<or> (\<exists>w. fit_loop ts s1 ys results = Inr (s2, w)))"
proof (induction xs arbitrary: self w2)
  case Nil
  then show ?case by auto
next
  case (Cons x xs)
  from Cons.prems obtain self1 where p: "partial_unfreeze self x = Inr self1"
    by (auto split: sum.splits)
  from Cons.prems p obtain trl vl vs where r: "results x = Inr (trl, vl, vs)"
    by (auto split: sum.splits)
  from Cons.prems p r obtain st es w0 where
    c: "EarlyStopping_call ts (early_stopping self1) trl vl vs = Inr (st, es, w0)"
    by (auto split: sum.splits)
  show ?case
  proof (cases st)
    case True
    then show ?thesis using Cons.prems p r c by simp
  next
    case False
    then obtain w' where
      "fit_loop ts (self1\<lparr>early_stopping := es\<rparr>) (xs @ ys) results = Inr (s2, w')"
      using Cons.prems p r c by (auto split: sum.splits)
    from Cons.IH [OF this] obtain s1 w1 where
      "fit_loop ts (self1\<lparr>early_stopping := es\<rparr>) xs results = Inr (s1, w1)"
      "s2 = s1 \<or> (\<exists>w. fit_loop ts s1 ys results = Inr (s2, w))"
      by blast
    then show ?thesis using False p r c by simp
  qed
qed

text \<open>
  Claim C9.  A parameter trainable when \<^verbatim>\<open>fit\<close> starts is trainable after any number
  of epochs, and a parameter trainable after \<open>e\<close> epochs is trainable after \<open>e'\<close>
  epochs, for \<open>e \<le> e'\<close>.  The model of \<^verbatim>\<open>fit\<close> has no call of
  \<^verbatim>\<open>_freeze_model\<close>, as the source has none.
\<close>

theorem trainable_monotone:
  assumes "e \<le> e'"
    and "fit ts self e results = Inr (s1, w1)"
    and "fit ts self e' results = Inr (s2, w2)"
  shows "trainable_le (model self) (model s1) \<and> trainable_le (model s1) (model s2)"
proof -
  have "[0..<nat e'] = [0..<nat e] @ [nat e..<nat e']"
    using assms(1) by (metis le_add_diff_inverse nat_mono upt_add_eq_append zero_le)
  then have "fit_loop ts self (map int [0..<nat e] @ map int [nat e..<nat e']) results = Inr (s2, w2)"
    using assms(3) by (simp add: fit_def)
  from fit_loop_append [OF this] assms(2) have
    "s2 = s1 \<or> (\<exists>w. fit_loop ts s1 (map int [nat e..<nat e']) results = Inr (s2, w))"
    by (simp add: fit_def)
  then have "trainable_le (model s1) (model s2)"
    using fit_loop_mono trainable_le_refl by blast
  moreover have "trainable_le (model self) (model s1)"
    using assms(2) fit_loop_mono by (simp add: fit_def)
  ultimately show ?thesis by simp
qed

section \<open>The parameters trainable after construction\<close>

text \<open>
  Claim C5, amended.  For towers of the same depth, \<^verbatim>\<open>__init__\<close> returns, and
  after it the two projections are trainable, in either tower all parameters of the last
  block are trainable and all parameters of the other blocks are frozen, and every other
  parameter is frozen: the number of blocks is the constant 1 of the call
  \<^verbatim>\<open>self._unfreeze_blocks(1)\<close>.
\<close>

theorem init_trainable_parameters:
  assumes "length (transformer_resblocks loaded) = length (visual_transformer_resblocks loaded)"
  shows "\<exists>self. CLIPFinetuner_init loaded uf ue = Inr self \<and>
           visual_proj (model self) \<and> text_projection (model self) \<and>
           visual_transformer_resblocks (model self) =
             map (\<lambda>(i, blk). map (\<lambda>p. Suc i = length (visual_transformer_resblocks loaded)) blk)
               (enumerate 0 (visual_transformer_resblocks loaded)) \<and>
           transformer_resblocks (model self) =
             map (\<lambda>(i, blk). map (\<lambda>p. Suc i = length (transformer_resblocks loaded)) blk)
               (enumerate 0 (transformer_resblocks loaded)) \<and>
           other_parameters (model self) = map (\<lambda>p. False) (other_parameters loaded)"
proof -
  from init_schedule [OF assms, of uf ue] obtain self where
    i: "CLIPFinetuner_init loaded uf ue = Inr self" and s: "sched_inv loaded uf ue self 0"
    by blast
  have t: "\<And>orig::bool list list.
      trailing_unfrozen (min (length orig) (Suc 0)) orig =
      map (\<lambda>(i, blk). map (\<lambda>p. Suc i = length orig) blk) (enumerate 0 orig)"
    by (rule nth_equalityI) (auto simp: trailing_nth nth_enumerate_eq)
  have "model self = schedule_model loaded (min (length (visual_transformer_resblocks loaded)) (Suc 0))"
    using s by (simp add: sched_inv_def fires_def)
  then show ?thesis
    using i t [of "visual_transformer_resblocks loaded"] t [of "transformer_resblocks loaded"] assms
    by (simp add: schedule_model_def)
qed

lemma example_init:
  "CLIPFinetuner_init example_model uf ue =
     Inr \<lparr>model = \<lparr>visual_proj = True, text_projection = True,
                   visual_transformer_resblocks = [[False], [False, False], [True]],
                   transformer_resblocks = [[False], [False], [True, True]],
                   other_parameters = [False, False]\<rparr>,
          tot_blocks = 3, unfreeze_from = uf, unfreeze_every = ue,
          early_stopping = EarlyStopping_init 50 ''models'' ''max''\<rparr>"
  by (simp add: CLIPFinetuner_init_def example_model_def freeze_model_def unfreeze_blocks_def
        Let_def upt_conv_Cons)

text \<open>
  Claim C5 as stated fails: no argument of the constructor sets the number of blocks.
  Whatever the schedule arguments, exactly the last block of either tower of the example
  model is trainable after \<^verbatim>\<open>__init__\<close>.
\<close>

theorem init_blocks_counterexample:
  "\<forall>uf ue. map_sum id (\<lambda>self. (visual_transformer_resblocks (model self),
                               transformer_resblocks (model self)))
             (CLIPFinetuner_init example_model uf ue) =
           Inr ([[False], [False, False], [True]], [[False], [False], [True, True]])"
  by (simp add: example_init)

text \<open>
  The example model, with the default schedule arguments 6 and 2.
\<close>

theorem init_trainable_parameters_witness:
  "length (transformer_resblocks example_model) =
     length (visual_transformer_resblocks example_model) \<and>
   (\<exists>self. CLIPFinetuner_init example_model 6 2 = Inr self \<and>
      visual_proj (model self) \<and> text_projection (model self) \<and>
      visual_transformer_resblocks (model self) = [[False], [False, False], [True]] \<and>
      transformer_resblocks (model self) = [[False], [False], [True, True]] \<and>
      other_parameters (model self) = [False, False])"
proof -
  have h: "length (transformer_resblocks example_model) =
             length (visual_transformer_resblocks example_model)"
    by (simp add: example_model_def)
  show ?thesis
    using h init_trainable_parameters [OF h, of 6 2]
    by (simp add: example_model_def enumerate_eq_zip upt_conv_Cons)
qed

section \<open>The schedule against its documentation\<close>

text \<open>
  Claim C1.  The claim, like the docstring of \<^verbatim>\<open>_partial_unfreeze\<close> ("Every
  self._unfreeze_every epochs, starting from self._unfreeze_from, unfreeze one more
  transformer block"), has the schedule act in the epochs \<^verbatim>\<open>unfreeze_from\<close>,
  \<^verbatim>\<open>unfreeze_from + unfreeze_every\<close>, and so on, and the number of blocks that the code
  computes counts from \<^verbatim>\<open>unfreeze_from\<close> in this way; but the test
  \<^verbatim>\<open>epoch % self._unfreeze_every == 0\<close> is on the epoch number itself.  With
  \<^verbatim>\<open>unfreeze_from = 4\<close>, \<^verbatim>\<open>unfreeze_every = 3\<close> and three blocks, epoch 4 (loop index
  3) is scheduled and the code unfreezes nothing in it, nor in epoch 5; it unfreezes the
  second block in epoch 6 (loop index 5), which is not scheduled.
\<close>

theorem unfreeze_from_4_every_3:
  "scheduled_epoch 4 3 4 \<and> \<not> scheduled_epoch 4 3 5 \<and> \<not> scheduled_epoch 4 3 6 \<and>
   (case CLIPFinetuner_init example_model 4 3 of
      Inl e \<Rightarrow> False
    | Inr self \<Rightarrow>
        partial_unfreeze self 3 = Inr self \<and> partial_unfreeze self 4 = Inr self \<and>
        map_sum id model (partial_unfreeze self 5) = Inr (schedule_model example_model 2))"
proof -
  have m: "schedule_model example_model 2 =
      \<lparr>visual_proj = True, text_projection = True,
       visual_transformer_resblocks = [[False], [True, True], [True]],
       transformer_resblocks = [[False], [True], [True, True]],
       other_parameters = [False, False]\<rparr>"
    by (simp add: schedule_model_def trailing_unfrozen_def example_model_def enumerate_eq_zip
          upt_conv_Cons)
  show ?thesis
    unfolding m
    by (simp add: scheduled_epoch_def example_init partial_unfreeze_def unfreeze_blocks_def
          Let_def upt_conv_Cons)
qed

lemma example_fit:
  "\<exists>self ws. fit ts (projr (CLIPFinetuner_init example_model 2 2)) 4 example_results = Inr (self, ws)
     \<and> length (val_scores (early_stopping self)) = 4"
  by (simp add: example_init fit_def upt_conv_Cons partial_unfreeze_def unfreeze_blocks_def
        Let_def example_results_def EarlyStopping_call_def EarlyStopping_init_def
        is_improvement_def float_gt_def)

section \<open>The patience counter\<close>

text \<open>
  Claim C4, amended.  A non-improving call after the first returns, adds exactly 1 to the
  counter and writes nothing.  A sequence of calls on a fresh object raises only at an
  improving call whose checkpoint \<^verbatim>\<open>torch.save\<close> does not write, with its exception.
  When the calls return, the counter is the number of non-improving calls since the last
  improvement (or since the first call), and call \<open>n\<close> returns \<^verbatim>\<open>True\<close> exactly if this
  call or an earlier one was non-improving with the count at or above the patience: the
  flag, once set, is returned by every later call.
\<close>

theorem patience_counter_and_stop:
  "(best_score es = Some b \<and> \<not> improves es s \<longrightarrow>
      (\<exists>r es'. EarlyStopping_call ts es trl vl s = Inr (r, es', []) \<and>
         counter es' = counter es + 1)) \<and>
   (case EarlyStopping_calls ts (EarlyStopping_init p d m) xs of
      Inl e \<Rightarrow>
        ts (path_join d ''checkpoint.pt'') = Some e \<and>
        Improved \<in> set (outcomes m None (map (\<lambda>(trl, vl, vs). vs) xs))
    | Inr (rs, es', ws) \<Rightarrow>
        (ts (path_join d ''checkpoint.pt'') = None \<or>
         Improved \<notin> set (outcomes m None (map (\<lambda>(trl, vl, vs). vs) xs))) \<and>
        length rs = length xs \<and>
        counter es' = int (stagnant_count (outcomes m None (map (\<lambda>(trl, vl, vs). vs) xs))) \<and>
        (\<forall>n<length xs. rs ! n =
           (\<exists>k\<le>n. patience_reached p (outcomes m None (map (\<lambda>(trl, vl, vs). vs) xs)) k)))"
proof
  show "best_score es = Some b \<and> \<not> improves es s \<longrightarrow>
      (\<exists>r es'. EarlyStopping_call ts es trl vl s = Inr (r, es', []) \<and>
         counter es' = counter es + 1)"
    by (simp add: call_eq recorded_def)
next
  have c: "checkpoint_path (EarlyStopping_init p d m) = path_join d ''checkpoint.pt''"
    by (simp add: checkpoint_path_def EarlyStopping_init_def)
  from calls_from_inv [OF init_inv [of p m d], where xs = xs and ts = ts]
  show "case EarlyStopping_calls ts (EarlyStopping_init p d m) xs of
      Inl e \<Rightarrow>
        ts (path_join d ''checkpoint.pt'') = Some e \<and>
        Improved \<in> set (outcomes m None (map (\<lambda>(trl, vl, vs). vs) xs))
    | Inr (rs, es', ws) \<Rightarrow>
        (ts (path_join d ''checkpoint.pt'') = None \<or>
         Improved \<notin> set (outcomes m None (map (\<lambda>(trl, vl, vs). vs) xs))) \<and>
        length rs = length xs \<and>
        counter es' = int (stagnant_count (outcomes m None (map (\<lambda>(trl, vl, vs). vs) xs))) \<and>
        (\<forall>n<length xs. rs ! n =
           (\<exists>k\<le>n. patience_reached p (outcomes m None (map (\<lambda>(trl, vl, vs). vs) xs)) k))"
    unfolding c by (cases "EarlyStopping_calls ts (EarlyStopping_init p d m) xs") auto
qed

text \<open>
  Patience 1 and the scores 1, 0, 2 in mode "max": the calls return where the checkpoint
  can be written, and the third call raises without the directory.
\<close>

theorem patience_counter_and_stop_witness:
  "best_score ((EarlyStopping_init 1 ''models'' ''max'')\<lparr>best_score := Some (Fin 1)\<rparr>) =
     Some (Fin 1) \<and>
   \<not> improves ((EarlyStopping_init 1 ''models'' ''max'')\<lparr>best_score := Some (Fin 1)\<rparr>) (Fin 0) \<and>
   (\<exists>r es'. EarlyStopping_call torch_save_fails
               ((EarlyStopping_init 1 ''models'' ''max'')\<lparr>best_score := Some (Fin 1)\<rparr>)
               (Fin 0) (Fin 0) (Fin 0) = Inr (r, es', []) \<and>
      counter es' = 1) \<and>
   (\<exists>rs es' ws.
      EarlyStopping_calls torch_save_ok (EarlyStopping_init 1 ''models'' ''max'')
        [(Fin 0, Fin 0, Fin 1), (Fin 0, Fin 0, Fin 0), (Fin 0, Fin 0, Fin 2)] =
        Inr (rs, es', ws) \<and>
      length rs = 3 \<and>
      counter es' = int (stagnant_count (outcomes ''max'' None [Fin 1, Fin 0, Fin 2])) \<and>
      (\<forall>n<3. rs ! n =
         (\<exists>k\<le>n. patience_reached 1 (outcomes ''max'' None [Fin 1, Fin 0, Fin 2]) k))) \<and>
   EarlyStopping_calls torch_save_fails (EarlyStopping_init 1 ''models'' ''max'')
     [(Fin 0, Fin 0, Fin 1), (Fin 0, Fin 0, Fin 0), (Fin 0, Fin 0, Fin 2)] = Inl RuntimeError"
proof -
  let ?es = "(EarlyStopping_init 1 ''models'' ''max'')\<lparr>best_score := Some (Fin 1)\<rparr>"
  let ?xs = "[(Fin 0, Fin 0, Fin 1), (Fin 0, Fin 0, Fin 0), (Fin 0, Fin 0, Fin 2)]"
  let ?os = "outcomes ''max'' None (map (\<lambda>(trl, vl, vs). vs) ?xs)"
  note T = patience_counter_and_stop [where es = ?es and b = "Fin 1" and s = "Fin 0"
      and trl = "Fin 0" and vl = "Fin 0" and p = 1 and d = "''models''" and m = "''max''"
      and xs = ?xs and ts = torch_save_ok]
  note F = patience_counter_and_stop [where es = ?es and b = "Fin 1" and s = "Fin 0"
      and trl = "Fin 0" and vl = "Fin 0" and p = 1 and d = "''models''" and m = "''max''"
      and xs = ?xs and ts = torch_save_fails]
  have h: "best_score ?es = Some (Fin 1) \<and> \<not> improves ?es (Fin 0)"
    by (simp add: improves_def EarlyStopping_init_def float_gt_def)
  have c: "counter ?es = 0" by (simp add: EarlyStopping_init_def)
  have os: "?os = [First, Stagnant, Improved]"
    by (simp add: classify_def float_gt_def)
  from F h have "\<exists>r es'. EarlyStopping_call torch_save_fails ?es (Fin 0) (Fin 0) (Fin 0) =
      Inr (r, es', []) \<and> counter es' = counter ?es + 1"
    by blast
  then have A: "\<exists>r es'. EarlyStopping_call torch_save_fails ?es (Fin 0) (Fin 0) (Fin 0) =
      Inr (r, es', []) \<and> counter es' = 1"
    unfolding c by simp
  from T have T2: "case EarlyStopping_calls torch_save_ok (EarlyStopping_init 1 ''models'' ''max'') ?xs of
      Inl e \<Rightarrow> torch_save_ok (path_join ''models'' ''checkpoint.pt'') = Some e \<and> Improved \<in> set ?os
    | Inr (rs, es', ws) \<Rightarrow>
        (torch_save_ok (path_join ''models'' ''checkpoint.pt'') = None \<or> Improved \<notin> set ?os) \<and>
        length rs = length ?xs \<and>
        counter es' = int (stagnant_count ?os) \<and>
        (\<forall>n<length ?xs. rs ! n = (\<exists>k\<le>n. patience_reached 1 ?os k))"
    by blast
  from F have F2: "case EarlyStopping_calls torch_save_fails (EarlyStopping_init 1 ''models'' ''max'') ?xs of
      Inl e \<Rightarrow> torch_save_fails (path_join ''models'' ''checkpoint.pt'') = Some e \<and> Improved \<in> set ?os
    | Inr (rs, es', ws) \<Rightarrow>
        (torch_save_fails (path_join ''models'' ''checkpoint.pt'') = None \<or> Improved \<notin> set ?os) \<and>
        length rs = length ?xs \<and>
        counter es' = int (stagnant_count ?os) \<and>
        (\<forall>n<length ?xs. rs ! n = (\<exists>k\<le>n. patience_reached 1 ?os k))"
    by blast
  have B: "\<exists>rs es' ws.
      EarlyStopping_calls torch_save_ok (EarlyStopping_init 1 ''models'' ''max'') ?xs =
        Inr (rs, es', ws) \<and>
      length rs = 3 \<and>
      counter es' = int (stagnant_count (outcomes ''max'' None [Fin 1, Fin 0, Fin 2])) \<and>
      (\<forall>n<3. rs ! n =
         (\<exists>k\<le>n. patience_reached 1 (outcomes ''max'' None [Fin 1, Fin 0, Fin 2]) k))"
  proof (cases "EarlyStopping_calls torch_save_ok (EarlyStopping_init 1 ''models'' ''max'') ?xs")
    case (Inl e)
    with T2 have "torch_save_ok (path_join ''models'' ''checkpoint.pt'') = Some e"
      by (simp del: EarlyStopping_calls.simps outcomes.simps)
    then show ?thesis by (simp add: torch_save_ok_def)
  next
    case (Inr u)
    obtain rs es' ws where u: "u = (rs, es', ws)" by (cases u)
    from T2 Inr u show ?thesis
      by (simp add: numeral_3_eq_3 del: EarlyStopping_calls.simps outcomes.simps)
  qed
  have C: "EarlyStopping_calls torch_save_fails (EarlyStopping_init 1 ''models'' ''max'') ?xs =
      Inl RuntimeError"
  proof (cases "EarlyStopping_calls torch_save_fails (EarlyStopping_init 1 ''models'' ''max'') ?xs")
    case (Inl e)
    with F2 have "torch_save_fails (path_join ''models'' ''checkpoint.pt'') = Some e"
      by (simp del: EarlyStopping_calls.simps outcomes.simps)
    then show ?thesis using Inl by (simp add: torch_save_fails_def)
  next
    case (Inr u)
    obtain rs es' ws where u: "u = (rs, es', ws)" by (cases u)
    from F2 Inr u have "torch_save_fails (path_join ''models'' ''checkpoint.pt'') = None \<or>
        Improved \<notin> set ?os"
      by (simp del: EarlyStopping_calls.simps outcomes.simps)
    then show ?thesis unfolding os by (simp add: torch_save_fails_def)
  qed
  show ?thesis using h A B C by blast
qed

text \<open>
  Claim C4 as stated fails: with patience 1 and the scores 1, 0, 2, the checkpoint
  written, the third call improves, so the count of non-improving calls since the last
  improvement is 0, below the patience, and the call returns \<^verbatim>\<open>True\<close>.
\<close>

theorem stop_exactly_at_patience_counterexample:
  "map_sum id (\<lambda>(rs, es, ws). (rs, counter es, patience es))
     (EarlyStopping_calls torch_save_ok (EarlyStopping_init 1 ''models'' ''max'')
        [(Fin 0, Fin 0, Fin 1), (Fin 0, Fin 0, Fin 0), (Fin 0, Fin 0, Fin 2)]) =
     Inr ([False, True, True], 0, 1) \<and>
   outcomes ''max'' None [Fin 1, Fin 0, Fin 2] = [First, Stagnant, Improved] \<and>
   stagnant_count [First, Stagnant, Improved] = 0"
  by (simp add: EarlyStopping_call_def EarlyStopping_init_def is_improvement_def float_gt_def
        Let_def save_checkpoint_def classify_def stagnant_count_def torch_save_ok_def)

text \<open>
  With patience 1 and best score 1, the score 0 sets the flag.  Where the checkpoint can
  be written, the scores 2 and 3 that follow both improve and both calls return
  \<^verbatim>\<open>True\<close>, the first with the checkpoint written and the counter reset; without the
  directory, the call with score 2 raises.
\<close>

theorem stop_is_sticky_witness:
  "EarlyStopping_call torch_save_fails
     ((EarlyStopping_init 1 ''models'' ''max'')\<lparr>best_score := Some (Fin 1)\<rparr>)
     (Fin 0) (Fin 0) (Fin 0) =
     Inr (True,
          (EarlyStopping_init 1 ''models'' ''max'')
            \<lparr>best_score := Some (Fin 1), counter := 1, stop := True,
             train_loss := [Fin 0], val_loss := [Fin 0], val_scores := [Fin 0]\<rparr>, []) \<and>
   improves
     ((EarlyStopping_init 1 ''models'' ''max'')
        \<lparr>best_score := Some (Fin 1), counter := 1, stop := True,
         train_loss := [Fin 0], val_loss := [Fin 0], val_scores := [Fin 0]\<rparr>) (Fin 2) \<and>
   (\<exists>es' ws.
      EarlyStopping_calls torch_save_ok
        ((EarlyStopping_init 1 ''models'' ''max'')
           \<lparr>best_score := Some (Fin 1), counter := 1, stop := True,
            train_loss := [Fin 0], val_loss := [Fin 0], val_scores := [Fin 0]\<rparr>)
        [(Fin 0, Fin 0, Fin 2), (Fin 0, Fin 0, Fin 3)] = Inr ([True, True], es', ws) \<and>
      stop es') \<and>
   EarlyStopping_call torch_save_ok
     ((EarlyStopping_init 1 ''models'' ''max'')
        \<lparr>best_score := Some (Fin 1), counter := 1, stop := True,
         train_loss := [Fin 0], val_loss := [Fin 0], val_scores := [Fin 0]\<rparr>)
     (Fin 0) (Fin 0) (Fin 2) =
     Inr (True,
          (EarlyStopping_init 1 ''models'' ''max'')
            \<lparr>best_score := Some (Fin 2), counter := 0, stop := True,
             train_loss := [Fin 0, Fin 0], val_loss := [Fin 0, Fin 0],
             val_scores := [Fin 0, Fin 2]\<rparr>,
          [''models/checkpoint.pt'']) \<and>
   EarlyStopping_call torch_save_fails
     ((EarlyStopping_init 1 ''models'' ''max'')
        \<lparr>best_score := Some (Fin 1), counter := 1, stop := True,
         train_loss := [Fin 0], val_loss := [Fin 0], val_scores := [Fin 0]\<rparr>)
     (Fin 0) (Fin 0) (Fin 2) = Inl RuntimeError"
proof -
  let ?before = "(EarlyStopping_init 1 ''models'' ''max'')\<lparr>best_score := Some (Fin 1)\<rparr>"
  let ?stopped = "(EarlyStopping_init 1 ''models'' ''max'')
            \<lparr>best_score := Some (Fin 1), counter := 1, stop := True,
             train_loss := [Fin 0], val_loss := [Fin 0], val_scores := [Fin 0]\<rparr>"
  let ?xs = "[(Fin 0, Fin 0, Fin 2), (Fin 0, Fin 0, Fin 3)]"
  have h: "EarlyStopping_call torch_save_fails ?before (Fin 0) (Fin 0) (Fin 0) =
      Inr (True, ?stopped, [])"
    by (simp add: EarlyStopping_call_def EarlyStopping_init_def is_improvement_def
          float_gt_def Let_def)
  have i: "improves ?stopped (Fin 2)"
    by (simp add: improves_def EarlyStopping_init_def float_gt_def)
  have d: "checkpoint_path ?stopped = ''models/checkpoint.pt''"
    by (simp add: checkpoint_path_def EarlyStopping_init_def path_join_def)
  note T = stop_is_sticky [OF h, where xs = ?xs and ts = torch_save_ok
      and trl = "Fin 0" and vl = "Fin 0" and s = "Fin 2"]
  note F = stop_is_sticky [OF h, where xs = ?xs and ts = torch_save_fails
      and trl = "Fin 0" and vl = "Fin 0" and s = "Fin 2"]
  from T have T1: "case EarlyStopping_calls torch_save_ok ?stopped ?xs of
            Inl e \<Rightarrow> torch_save_ok (checkpoint_path ?stopped) = Some e
          | Inr (rs, es', ws) \<Rightarrow> rs = replicate (length ?xs) True \<and> stop es'"
    by blast
  have A: "\<exists>es' ws.
      EarlyStopping_calls torch_save_ok ?stopped ?xs = Inr ([True, True], es', ws) \<and> stop es'"
  proof (cases "EarlyStopping_calls torch_save_ok ?stopped ?xs")
    case (Inl e)
    with T1 have "torch_save_ok (checkpoint_path ?stopped) = Some e"
      by (simp del: EarlyStopping_calls.simps)
    then show ?thesis by (simp add: torch_save_ok_def)
  next
    case (Inr u)
    obtain rs es' ws where u: "u = (rs, es', ws)" by (cases u)
    from T1 Inr u show ?thesis
      by (simp add: numeral_2_eq_2 del: EarlyStopping_calls.simps)
  qed
  from T i have B: "EarlyStopping_call torch_save_ok ?stopped (Fin 0) (Fin 0) (Fin 2) =
      Inr (True,
          (EarlyStopping_init 1 ''models'' ''max'')
            \<lparr>best_score := Some (Fin 2), counter := 0, stop := True,
             train_loss := [Fin 0, Fin 0], val_loss := [Fin 0, Fin 0],
             val_scores := [Fin 0, Fin 2]\<rparr>,
          [''models/checkpoint.pt''])"
    unfolding d by (simp add: torch_save_ok_def recorded_def EarlyStopping_init_def)
  from F i have C: "EarlyStopping_call torch_save_fails ?stopped (Fin 0) (Fin 0) (Fin 2) =
      Inl RuntimeError"
    unfolding d by (simp add: torch_save_fails_def)
  show ?thesis using h i A B C by blast
qed

section \<open>The schedule on an example\<close>

text \<open>
  \<^verbatim>\<open>unfreeze_from = 2\<close>, \<^verbatim>\<open>unfreeze_every = 2\<close>, four epochs, three blocks: epochs
  2 and 4 act, and all three blocks end up trainable.
\<close>

lemma unfreeze_schedule_example:
  "(1::int) \<le> 2 \<and>
   length (transformer_resblocks example_model) =
     length (visual_transformer_resblocks example_model) \<and>
   (\<exists>self0 self ws.
      CLIPFinetuner_init example_model 2 2 = Inr self0 \<and>
      fit torch_save_ok self0 4 example_results = Inr (self, ws) \<and>
      length (val_scores (early_stopping self)) = 4 \<and>
      fires 2 2 4 = 2 \<and>
      visual_transformer_resblocks (model self) = [[True], [True, True], [True]] \<and>
      transformer_resblocks (model self) = [[True], [True], [True, True]])"
proof -
  have h: "(1::int) \<le> 2" by simp
  have l: "length (transformer_resblocks example_model) =
             length (visual_transformer_resblocks example_model)"
    by (simp add: example_model_def)
  obtain self0 where i: "CLIPFinetuner_init example_model 2 2 = Inr self0"
    by (simp add: example_init)
  then have p: "projr (CLIPFinetuner_init example_model 2 2) = self0" by simp
  from example_fit [where ts = torch_save_ok] obtain self ws where
    f: "fit torch_save_ok self0 4 example_results = Inr (self, ws)"
       "length (val_scores (early_stopping self)) = 4"
    unfolding p by blast
  have n: "fires 2 2 4 = 2"
    by (simp add: fires_def firing_def upt_conv_Cons)
  have "model self =
          schedule_model example_model
            (min (length (visual_transformer_resblocks example_model))
               (1 + fires 2 2 (length (val_scores (early_stopping self)))))"
    using unfreeze_schedule [OF h h l i f(1)] by simp
  then have "visual_transformer_resblocks (model self) = [[True], [True, True], [True]] \<and>
      transformer_resblocks (model self) = [[True], [True], [True, True]]"
    unfolding f(2) n
    by (simp add: schedule_model_def example_model_def trailing_unfrozen_def enumerate_eq_zip
          upt_conv_Cons)
  then show ?thesis using h l i f n by blast
qed

lemma example_fit_one:
  "\<exists>self ws. fit ts (projr (CLIPFinetuner_init example_model 2 2)) 1 example_results = Inr (self, ws)"
  by (simp add: example_init fit_def upt_conv_Cons partial_unfreeze_def unfreeze_blocks_def
        Let_def example_results_def EarlyStopping_call_def EarlyStopping_init_def
        is_improvement_def float_gt_def)

text \<open>
  One epoch and four epochs of the example.
\<close>

theorem trainable_monotone_witness:
  "(1::int) \<le> 4 \<and>
   (\<exists>self0 s1 w1 s2 w2.
      CLIPFinetuner_init example_model 2 2 = Inr self0 \<and>
      fit torch_save_ok self0 1 example_results = Inr (s1, w1) \<and>
      fit torch_save_ok self0 4 example_results = Inr (s2, w2) \<and>
      trainable_le (model self0) (model s1) \<and> trainable_le (model s1) (model s2))"
proof -
  have h: "(1::int) \<le> 4" by simp
  obtain self0 where i: "CLIPFinetuner_init example_model 2 2 = Inr self0"
    by (simp add: example_init)
  then have p: "projr (CLIPFinetuner_init example_model 2 2) = self0" by simp
  from example_fit_one [where ts = torch_save_ok] obtain s1 w1 where f1: "fit torch_save_ok self0 1 example_results = Inr (s1, w1)"
    unfolding p by blast
  from example_fit [where ts = torch_save_ok] obtain s2 w2 where f2: "fit torch_save_ok self0 4 example_results = Inr (s2, w2)"
    unfolding p by blast
  show ?thesis
    using h i f1 f2 trainable_monotone [OF h f1 f2] by blast
qed

section \<open>Dataset items, and the mode of the subsets\<close>

lemma list_getitem_valid:
  "- int (length xs) \<le> idx \<Longrightarrow> idx < int (length xs) \<Longrightarrow>
   list_getitem xs idx = Inr (xs ! nat (if idx < 0 then int (length xs) + idx else idx))"
  by (simp add: list_getitem_def Let_def)

lemma list_getitem_nat: "i < length xs \<Longrightarrow> list_getitem xs (int i) = Inr (xs ! i)"
  by (simp add: list_getitem_def Let_def)

lemma getitem_fetched:
  "- int (length (image_caption_pairs self)) \<le> idx \<Longrightarrow>
   idx < int (length (image_caption_pairs self)) \<Longrightarrow>
   ImageCaptionDataset_getitem image_open convert_rgb self idx =
     fetched image_open convert_rgb self (mode self = ''train'')
       (image_caption_pairs self !
          nat (if idx < 0 then int (length (image_caption_pairs self)) + idx else idx))"
  by (simp add: ImageCaptionDataset_getitem_def fetched_def list_getitem_valid Let_def
        split: prod.splits option.splits)

text \<open>
  Claim C6.  For every valid index (from \<open>- len\<close> to \<open>len - 1\<close>, negative indices
  counting from the end) \<^verbatim>\<open>__getitem__\<close> opens the file named in the record at that
  index, under the images directory, and converts it to RGB; it applies the image and
  the text augmenter if and only if the mode is \<^verbatim>\<open>"train"\<close>, and otherwise returns the
  RGB image and the caption of the record as they are.  If the file cannot be opened the
  call raises.
\<close>

theorem getitem_augments_iff_train:
  assumes "- int (length (image_caption_pairs self)) \<le> idx"
    and "idx < int (length (image_caption_pairs self))"
  shows "ImageCaptionDataset_getitem image_open convert_rgb self idx =
           fetched image_open convert_rgb self (mode self = ''train'')
             (image_caption_pairs self !
                nat (if idx < 0 then int (length (image_caption_pairs self)) + idx else idx))"
  using assms by (rule getitem_fetched)

text \<open>
  The last record of the example dataset, in mode "train", in mode "val", and on an empty
  disk.
\<close>

theorem getitem_augments_iff_train_witness:
  "- int (length (image_caption_pairs example_dataset)) \<le> - 1 \<and>
   - 1 < int (length (image_caption_pairs example_dataset)) \<and>
   ImageCaptionDataset_getitem example_disk (\<lambda>image. ''RGB '' @ image) example_dataset (- 1) =
     Inr (''augmented RGB pixels of b'', ''augmented a portrait'') \<and>
   ImageCaptionDataset_getitem example_disk (\<lambda>image. ''RGB '' @ image)
     (example_dataset\<lparr>mode := ''val''\<rparr>) (- 1) =
     Inr (''RGB pixels of b'', ''a portrait'') \<and>
   ImageCaptionDataset_getitem Map.empty (\<lambda>image. ''RGB '' @ image) example_dataset (- 1) =
     Inl OSError"
proof -
  have t1: "- int (length (image_caption_pairs example_dataset)) \<le> - 1"
    and t2: "- 1 < int (length (image_caption_pairs example_dataset))"
    by (simp_all add: example_dataset_def ImageCaptionDataset_init_def)
  have v1: "- int (length (image_caption_pairs (example_dataset\<lparr>mode := ''val''\<rparr>))) \<le> - 1"
    and v2: "- 1 < int (length (image_caption_pairs (example_dataset\<lparr>mode := ''val''\<rparr>)))"
    using t1 t2 by simp_all
  have f: "mode example_dataset = ''train''"
    "image_augmenter example_dataset = (\<lambda>image. ''augmented '' @ image)"
    "text_augmenter example_dataset = (\<lambda>text. ''augmented '' @ text)"
    "image_caption_pairs example_dataset = [(''a.jpg'', ''a vase''), (''b.jpg'', ''a portrait'')]"
    "images_dir example_dataset = ''data/images/imagesf2''"
    by (simp_all add: example_dataset_def ImageCaptionDataset_init_def path_join_def)
  show ?thesis
    using t1 t2
      getitem_augments_iff_train [where image_open = example_disk and self = example_dataset
        and idx = "- 1" and convert_rgb = "\<lambda>image. ''RGB '' @ image", OF t1 t2]
      getitem_augments_iff_train [where image_open = example_disk
        and self = "example_dataset\<lparr>mode := ''val''\<rparr>"
        and idx = "- 1" and convert_rgb = "\<lambda>image. ''RGB '' @ image", OF v1 v2]
      getitem_augments_iff_train [where image_open = Map.empty and self = example_dataset
        and idx = "- 1" and convert_rgb = "\<lambda>image. ''RGB '' @ image", OF t1 t2]
    by (simp add: f fetched_def example_disk_def path_join_def)
qed

text \<open>
  Claim C3.  After \<^verbatim>\<open>_get_data_loaders\<close> on a dataset as \<^verbatim>\<open>__init__\<close> makes it, the
  two subsets carry the modes "train" and "val" as attributes of their own, and the
  dataset they refer to is unchanged, with mode \<^verbatim>\<open>"train"\<close>; an item fetched through
  the validation subset is augmented, image and caption, as is an item fetched through
  the training subset.
\<close>

theorem subset_mode_leaves_dataset:
  assumes "ds = ImageCaptionDataset_init img_aug txt_aug dir file pairs"
    and "loaders = get_data_loaders ds train_indices val_indices bs"
    and "i < length val_indices" and "val_indices ! i < length pairs"
    and "j < length train_indices" and "train_indices ! j < length pairs"
  shows "dataset loaders = ds \<and> mode (dataset loaders) = ''train'' \<and>
         map_of (attributes (train_dataset loaders)) ''mode'' = Some ''train'' \<and>
         map_of (attributes (val_dataset loaders)) ''mode'' = Some ''val'' \<and>
         Subset_getitem image_open convert_rgb (dataset loaders) (val_dataset loaders) (int i) =
           fetched image_open convert_rgb ds True (pairs ! (val_indices ! i)) \<and>
         Subset_getitem image_open convert_rgb (dataset loaders) (train_dataset loaders) (int j) =
           fetched image_open convert_rgb ds True (pairs ! (train_indices ! j))"
proof -
  have d: "dataset loaders = ds" "indices (val_dataset loaders) = val_indices"
    "indices (train_dataset loaders) = train_indices"
    "map_of (attributes (train_dataset loaders)) ''mode'' = Some ''train''"
    "map_of (attributes (val_dataset loaders)) ''mode'' = Some ''val''"
    using assms(2) by (simp_all add: get_data_loaders_def subset_setattr_def Let_def)
  have f: "mode ds = ''train''" "image_caption_pairs ds = pairs"
    using assms(1) by (simp_all add: ImageCaptionDataset_init_def)
  have g: "ImageCaptionDataset_getitem image_open convert_rgb ds (int k) =
             fetched image_open convert_rgb ds True (pairs ! k)" if "k < length pairs" for k
    using that getitem_fetched [of ds "int k" image_open convert_rgb] by (simp add: f)
  show ?thesis
    using d f g [OF assms(4)] g [OF assms(6)] assms(3,5)
    by (simp add: Subset_getitem_def list_getitem_nat)
qed

text \<open>
  The example dataset split into a training subset with the first record and a
  validation subset with the second.
\<close>

theorem subset_mode_leaves_dataset_witness:
  "(0::nat) < length [1::nat] \<and>
   [1::nat] ! 0 < length [(''a.jpg'', ''a vase''), (''b.jpg'', ''a portrait'')] \<and>
   (0::nat) < length [0::nat] \<and>
   [0::nat] ! 0 < length [(''a.jpg'', ''a vase''), (''b.jpg'', ''a portrait'')] \<and>
   mode (dataset (get_data_loaders example_dataset [0] [1] 128)) = ''train'' \<and>
   map_of (attributes (val_dataset (get_data_loaders example_dataset [0] [1] 128))) ''mode'' =
     Some ''val'' \<and>
   Subset_getitem example_disk (\<lambda>image. ''RGB '' @ image)
     (dataset (get_data_loaders example_dataset [0] [1] 128))
     (val_dataset (get_data_loaders example_dataset [0] [1] 128)) 0 =
     Inr (''augmented RGB pixels of b'', ''augmented a portrait'') \<and>
   Subset_getitem example_disk (\<lambda>image. ''RGB '' @ image)
     (dataset (get_data_loaders example_dataset [0] [1] 128))
     (train_dataset (get_data_loaders example_dataset [0] [1] 128)) 0 =
     Inr (''augmented RGB pixels of a'', ''augmented a vase'')"
proof -
  let ?pairs = "[(''a.jpg'', ''a vase''), (''b.jpg'', ''a portrait'')]"
  have s3: "(0::nat) < length [1::nat]" by simp
  have s4: "[1::nat] ! 0 < length ?pairs" by simp
  have s5: "(0::nat) < length [0::nat]" by simp
  have s6: "[0::nat] ! 0 < length ?pairs" by simp
  have f: "image_augmenter example_dataset = (\<lambda>image. ''augmented '' @ image)"
    "text_augmenter example_dataset = (\<lambda>text. ''augmented '' @ text)"
    "images_dir example_dataset = ''data/images/imagesf2''"
    by (simp_all add: example_dataset_def ImageCaptionDataset_init_def path_join_def)
  note T = subset_mode_leaves_dataset [where image_open = example_disk and ds = example_dataset
        and bs = 128 and convert_rgb = "\<lambda>image. ''RGB '' @ image",
        OF example_dataset_def refl s3 s4 s5 s6]
  have e: "fetched example_disk (\<lambda>image. ''RGB '' @ image) example_dataset True
             (''b.jpg'', ''a portrait'') =
           Inr (''augmented RGB pixels of b'', ''augmented a portrait'')"
    "fetched example_disk (\<lambda>image. ''RGB '' @ image) example_dataset True
             (''a.jpg'', ''a vase'') =
           Inr (''augmented RGB pixels of a'', ''augmented a vase'')"
    by (simp_all add: fetched_def f example_disk_def path_join_def)
  from T e show ?thesis by auto
qed

section \<open>Training and validation losses\<close>

lemma train_loop_eq:
  "train_loop t batches w acc =
     (foldl (optimizer_update t) w batches,
      foldl (float_add t) acc (map (item t) (step_losses t w batches)))"
proof (induction batches arbitrary: w acc)
  case Nil
  show ?case by simp
next
  case (Cons b bs)
  show ?case
    by (simp add: Cons.IH Let_def optimizer_update_def batch_loss_def symmetric_loss_def
          split: prod.splits)
qed

lemma step_losses_length: "length (step_losses t w batches) = length batches"
  by (induction batches arbitrary: w) simp_all

lemma validate_loop_eq:
  "validate_loop t False batches w total_loss total_score =
     (foldl (float_add t) total_loss (map (\<lambda>b. item t (batch_loss t False w b)) batches),
      foldl (float_add t) total_score (map (\<lambda>b. item t (cosine_score t w b)) batches))"
proof (induction batches arbitrary: total_loss total_score)
  case Nil
  show ?case by simp
next
  case (Cons b bs)
  have s: "clip_score t False w b = cosine_score t w b"
    by (simp add: clip_score_def cosine_score_def l2_normalized_def no_grad_def)
  show ?case
    by (simp add: Cons.IH Let_def s batch_loss_def symmetric_loss_def split: prod.splits)
qed

text \<open>
  Claim C8.  \<^verbatim>\<open>_train\<close> raises \<^verbatim>\<open>ZeroDivisionError\<close> on a loader without batches;
  otherwise it returns the float sum of the losses of its steps, one per batch, divided
  by the number of batches.  Every step computes
  \<open>(cross_entropy(logits_per_image, g) + cross_entropy(logits_per_text, g)) / 2\<close> with
  \<open>g = [0, \<dots>, B - 1]\<close> for the \<open>B\<close> images of the batch, on the state the steps before
  left, then clears the gradients, backpropagates this loss and steps the optimizer.
\<close>

theorem train_symmetric_loss_average:
  "train t batches w =
     (if batches = [] then Inl ZeroDivisionError
      else Inr (foldl (optimizer_update t) (model_train t w) batches,
                average t (map (item t) (step_losses t (model_train t w) batches)))) \<and>
   length (step_losses t (model_train t w) batches) = length batches \<and>
   train_loop t [batch] w' acc =
     (optimizer_step t (backward t (batch_loss t True w' batch) (zero_grad t w')),
      float_add t acc (item t (batch_loss t True w' batch))) \<and>
   batch_loss t True w' batch =
     DivBy True
       (Add True
          (CrossEntropy True (Output True (fst (model_call t w' batch)))
             [0 ..< len_images t batch])
          (CrossEntropy True (Output True (snd (model_call t w' batch)))
             [0 ..< len_images t batch])) 2"
proof -
  have "train t batches w =
     (if batches = [] then Inl ZeroDivisionError
      else Inr (foldl (optimizer_update t) (model_train t w) batches,
                average t (map (item t) (step_losses t (model_train t w) batches))))"
    by (simp add: train_def train_loop_eq average_def step_losses_length Let_def)
  moreover have "train_loop t [batch] w' acc =
     (optimizer_step t (backward t (batch_loss t True w' batch) (zero_grad t w')),
      float_add t acc (item t (batch_loss t True w' batch)))"
    by (simp add: train_loop_eq optimizer_update_def)
  ultimately show ?thesis
    by (simp add: step_losses_length batch_loss_def symmetric_loss_def)
qed

text \<open>
  Claim C7.  \<^verbatim>\<open>_validate\<close> raises \<^verbatim>\<open>ZeroDivisionError\<close> on a loader without
  batches; otherwise it returns the averages, over the number of batches, of the losses
  and of the scores of the batches, computed on the model in evaluation mode, which it
  leaves as it is.  The loss of a batch is the expression a training step computes,
  \<open>symmetric_loss\<close> of the model's logits, with gradients disabled; the score is the mean
  of the diagonal of the cosine-similarity matrix of the L2-normalized features; every
  node of both expressions is computed with gradients disabled.
\<close>

theorem validate_same_loss_and_score:
  "validate t batches w =
     (if batches = [] then Inl ZeroDivisionError
      else Inr (model_eval t w,
                average t (map (\<lambda>b. item t (batch_loss t False (model_eval t w) b)) batches),
                average t (map (\<lambda>b. item t (cosine_score t (model_eval t w) b)) batches))) \<and>
   snd (train_loop t [batch] w' acc) =
     float_add t acc (item t (batch_loss t True w' batch)) \<and>
   batch_loss t False w' batch =
     symmetric_loss False (fst (model_call t w' batch)) (snd (model_call t w' batch))
       (len_images t batch) \<and>
   set (grad_modes (batch_loss t False w' batch)) = {False} \<and>
   set (grad_modes (cosine_score t w' batch)) = {False}"
proof -
  have "validate t batches w =
     (if batches = [] then Inl ZeroDivisionError
      else Inr (model_eval t w,
                average t (map (\<lambda>b. item t (batch_loss t False (model_eval t w) b)) batches),
                average t (map (\<lambda>b. item t (cosine_score t (model_eval t w) b)) batches)))"
    by (simp add: validate_def no_grad_def validate_loop_eq average_def Let_def)
  moreover have "snd (train_loop t [batch] w' acc) =
     float_add t acc (item t (batch_loss t True w' batch))"
    by (simp add: train_loop_eq)
  moreover have "set (grad_modes (batch_loss t False w' batch)) = {False}"
    by (simp add: batch_loss_def symmetric_loss_def)
  moreover have "set (grad_modes (cosine_score t w' batch)) = {False}"
    by (simp add: cosine_score_def l2_normalized_def)
  ultimately show ?thesis
    by (simp add: batch_loss_def)
qed

end
